theory Spec2Isabelle
  imports Main "HOL-Library.Log_Nat"
begin

section \<open>Data model of package jsonparser\<close>

text \<open>
  The Go types of \<^verbatim>\<open>parser.go\<close>. A \<^verbatim>\<open>string\<close> is a byte list, \<^verbatim>\<open>int\<close> and
  \<^verbatim>\<open>time.Duration\<close> (an int64 count of nanoseconds) are integers: Parse does no
  arithmetic on them, it only stores the result of one conversion, which lies in the
  int64 range. A slice of pointers is the list of the objects pointed to: every object
  is referenced from exactly one slice position, so a pointer obtained from a lookup is
  the index of that position and a write through it is a list update.
\<close>

datatype Result = PASS | FAIL | SKIP

record Benchmark =
  Name :: string
  Duration :: int
  Bytes :: int
  Allocs :: int

record Test =
  Name :: string
  Package :: string
  Duration :: int
  Result :: Result
  Output :: "string list"
  SubtestIndent :: string
  Time :: int

record Package =
  Name :: string
  Duration :: int
  Tests :: "Test list"
  Benchmarks :: "Benchmark list"
  CoveragePct :: string
  Time :: int

record Report =
  Packages :: "Package list"

subsection \<open>float32\<close>

text \<open>
  \<^verbatim>\<open>Elapsed\<close> is a float32. A float32 is modelled by the number it denotes: a
  rational for a finite value, an infinity with its sign (\<open>True\<close> is positive), or NaN.
  The sign of a zero is not kept: the only operation Parse applies to a product is the
  truncation to an integer, which sends both zeros to 0.
\<close>

datatype float32 = Finite rat | Inf bool | NaN

text \<open>\<open>ilog2 x\<close> is the binary exponent of a positive rational: \<open>2 ^ ilog2 x \<le> x < 2 ^ (ilog2 x + 1)\<close>.\<close>

definition ilog2 :: "rat \<Rightarrow> int" where
  "ilog2 x =
     (let (a, b) = quotient_of x; d = bitlen a - bitlen b
      in if (if 0 \<le> d then b * 2 ^ nat d \<le> a else b \<le> a * 2 ^ nat (- d)) then d else d - 1)"

definition round_half_even :: "rat \<Rightarrow> int" where
  "round_half_even q =
     (let f = \<lfloor>q\<rfloor>; r = q - of_int f
      in if r < 1 / 2 then f else if 1 / 2 < r then f + 1 else if even f then f else f + 1)"

text \<open>
  IEEE 754 binary32 rounding of an exact value, to nearest with ties to even: 24
  significant bits, the least exponent -126 (below it the spacing stays \<open>2 ^ -149\<close>),
  and overflow to infinity from \<open>2 ^ 128\<close> on.
\<close>

definition float32_round :: "rat \<Rightarrow> float32" where
  "float32_round x =
     (if x = 0 then Finite 0
      else let e = max (ilog2 \<bar>x\<bar>) (- 126);
               ulp = 2 powi (e - 23);
               y = of_int (round_half_even (x / ulp)) * ulp
           in if 2 ^ 128 \<le> \<bar>y\<bar> then Inf (0 < x) else Finite y)"

fun float32_mul :: "float32 \<Rightarrow> float32 \<Rightarrow> float32" where
  "float32_mul (Finite a) (Finite b) = float32_round (a * b)"
| "float32_mul (Finite a) (Inf s) = (if a = 0 then NaN else Inf (s = (0 < a)))"
| "float32_mul (Inf s) (Finite b) = (if b = 0 then NaN else Inf (s = (0 < b)))"
| "float32_mul (Inf s) (Inf t) = Inf (s = t)"
| "float32_mul NaN y = NaN"
| "float32_mul x NaN = NaN"

text \<open>\<^verbatim>\<open>float32(d)\<close> for a Duration \<open>d\<close>.\<close>

definition float32_of_Duration :: "int \<Rightarrow> float32" where
  "float32_of_Duration d = float32_round (of_int d)"

text \<open>
  \<^verbatim>\<open>time.Duration(x)\<close> for a float32 \<open>x\<close>: the fraction is discarded (truncation
  towards zero). For a value that int64 cannot represent (out of range, an infinity,
  NaN) Go leaves the result to the implementation; the value taken here is the one the
  amd64 conversion instruction delivers, the least int64.
\<close>

definition time_Duration :: "float32 \<Rightarrow> int" where
  "time_Duration x =
     (case x of
        Finite q \<Rightarrow>
          (let t = (if 0 \<le> q then \<lfloor>q\<rfloor> else - \<lfloor>- q\<rfloor>)
           in if - (2 ^ 63) \<le> t \<and> t < 2 ^ 63 then t else - (2 ^ 63))
      | Inf s \<Rightarrow> - (2 ^ 63)
      | NaN \<Rightarrow> - (2 ^ 63))"

definition Millisecond :: int where
  "Millisecond = 1000000"

definition Second :: int where
  "Second = 1000000000"

subsection \<open>Events\<close>

text \<open>
  \<^verbatim>\<open>LineOutput\<close>, the event decoded from one line. Its \<^verbatim>\<open>Time\<close> is a
  \<^verbatim>\<open>time.Time\<close>, here the nanoseconds since the zero time; Parse never reads it.
\<close>

record LineOutput =
  Time :: int
  Action :: string
  Package :: string
  Test :: string
  Output :: string
  Elapsed :: float32

text \<open>The zero value that \<^verbatim>\<open>var lineoutput LineOutput\<close> declares.\<close>

definition LineOutput_zero :: LineOutput where
  "LineOutput_zero =
     \<lparr>LineOutput.Time = 0, Action = '''', Package = '''', Test = '''', Output = '''',
      Elapsed = Finite 0\<rparr>"

subsection \<open>Errors, the reader and the decoder\<close>

text \<open>
  An \<^verbatim>\<open>error\<close> value is \<^verbatim>\<open>io.EOF\<close> or any other error, with its message.
\<close>

datatype error = EOF | Failure string

text \<open>
  The buffered reader is the sequence of results that its successive
  \<^verbatim>\<open>ReadLine\<close> calls deliver: a line (without its end-of-line bytes) or an error.
  A reader whose sequence is used up reports \<^verbatim>\<open>io.EOF\<close>.
\<close>

type_synonym reader = "(error + string) list"

text \<open>
  \<^verbatim>\<open>json.Unmarshal\<close> belongs to Go's standard library, so Parse takes it as a
  parameter: from the bytes of a line and the value the target holds, the error it
  returns (if any) and the value it leaves in the target.
\<close>

type_synonym unmarshal = "string \<Rightarrow> LineOutput \<Rightarrow> error option \<times> LineOutput"

section \<open>The parser\<close>

text \<open>
  \<^verbatim>\<open>findTest\<close> and \<^verbatim>\<open>findPackage\<close> scan from the last index down to 0. The
  result is the index of the entry whose pointer the Go function returns; \<open>None\<close> is
  \<^verbatim>\<open>nil\<close>. The first argument of the loop is the number of indices still to visit.
\<close>

fun findTest_loop :: "nat \<Rightarrow> Test list \<Rightarrow> string \<Rightarrow> nat option" where
  "findTest_loop 0 tests name = None"
| "findTest_loop (Suc i) tests name =
     (if Test.Name (tests ! i) = name then Some i else findTest_loop i tests name)"

definition findTest :: "Test list \<Rightarrow> string \<Rightarrow> nat option" where
  "findTest tests name = findTest_loop (length tests) tests name"

fun findPackage_loop :: "nat \<Rightarrow> Package list \<Rightarrow> string \<Rightarrow> nat option" where
  "findPackage_loop 0 packages name = None"
| "findPackage_loop (Suc i) packages name =
     (if Package.Name (packages ! i) = name then Some i else findPackage_loop i packages name)"

definition findPackage :: "Package list \<Rightarrow> string \<Rightarrow> nat option" where
  "findPackage packages name = findPackage_loop (length packages) packages name"

text \<open>
  The find-or-create step on \<^verbatim>\<open>report.Packages\<close>, which Parse performs in its
  loop and again when it assembles the report: the index of the package \<^verbatim>\<open>p\<close> and
  the slice, with the new package appended when the lookup returned \<^verbatim>\<open>nil\<close>.
\<close>

definition find_or_create_Package ::
  "Package list \<Rightarrow> string \<Rightarrow> Benchmark list \<Rightarrow> string \<Rightarrow> nat \<times> Package list" where
  "find_or_create_Package packages name benchmarks coveragePct =
     (case findPackage packages name of
        Some p \<Rightarrow> (p, packages)
      | None \<Rightarrow>
          (length packages,
           packages @
             [\<lparr>Package.Name = name, Duration = 0, Tests = [], Benchmarks = benchmarks,
               CoveragePct = coveragePct, Time = 0\<rparr>]))"

text \<open>The branch of the loop body for an event with an empty test name.\<close>

definition package_event ::
  "LineOutput \<Rightarrow> Benchmark list \<Rightarrow> string \<Rightarrow> Package list \<Rightarrow> Package list" where
  "package_event lineoutput benchmarks coveragePct packages =
     (let (p, packages) =
            find_or_create_Package packages (LineOutput.Package lineoutput) benchmarks coveragePct
      in if Action lineoutput = ''pass''
         then packages[p := (packages ! p)
                \<lparr>Package.Duration :=
                   time_Duration (float32_mul (Elapsed lineoutput) (float32_of_Duration Second))\<rparr>]
         else packages)"

text \<open>The branch for an event that names a test.\<close>

definition test_event :: "LineOutput \<Rightarrow> Test list \<Rightarrow> Test list" where
  "test_event lineoutput tests =
     (let (t, tests) =
            (case findTest tests (LineOutput.Test lineoutput) of
               Some t \<Rightarrow> (t, tests)
             | None \<Rightarrow>
                 (length tests,
                  tests @
                    [\<lparr>Test.Name = LineOutput.Test lineoutput,
                      Package = LineOutput.Package lineoutput, Duration = 0, Result = FAIL,
                      Output = [], SubtestIndent = '''', Time = 0\<rparr>]));
          tests =
            (if Action lineoutput = ''output''
             then tests[t := (tests ! t)
                    \<lparr>Test.Output := Test.Output (tests ! t) @ [LineOutput.Output lineoutput]\<rparr>]
             else tests)
      in if Action lineoutput = ''pass'' \<or> Action lineoutput = ''fail''
         then let tests =
                    (if Action lineoutput = ''pass''
                     then tests[t := (tests ! t)\<lparr>Result := PASS\<rparr>]
                     else tests)
              in tests[t := (tests ! t)
                   \<lparr>Test.Duration :=
                      time_Duration (float32_mul (Elapsed lineoutput) (float32_of_Duration Second))\<rparr>]
         else tests)"

text \<open>
  The loop of Parse over the reader. The state is \<^verbatim>\<open>report.Packages\<close> and
  \<^verbatim>\<open>tests\<close>; \<^verbatim>\<open>benchmarks\<close> and \<^verbatim>\<open>coveragePct\<close> are never assigned. The
  error that \<^verbatim>\<open>json.Unmarshal\<close> returns is dropped. A result \<open>Inl err\<close> is the
  return of \<^verbatim>\<open>nil, err\<close>. The copy of the event's output written to the standard
  error stream does not reach the report and is left out.
\<close>

fun parse_lines ::
  "unmarshal \<Rightarrow> reader \<Rightarrow> Benchmark list \<Rightarrow> string \<Rightarrow> Package list \<times> Test list \<Rightarrow>
   error + Package list \<times> Test list" where
  "parse_lines Unmarshal [] benchmarks coveragePct (packages, tests) = Inr (packages, tests)"
| "parse_lines Unmarshal (Inl err # r) benchmarks coveragePct (packages, tests) =
     (if err = EOF then Inr (packages, tests) else Inl err)"
| "parse_lines Unmarshal (Inr l # r) benchmarks coveragePct (packages, tests) =
     (let lineoutput = snd (Unmarshal l LineOutput_zero)
      in if LineOutput.Test lineoutput = ''''
         then parse_lines Unmarshal r benchmarks coveragePct
                (package_event lineoutput benchmarks coveragePct packages, tests)
         else parse_lines Unmarshal r benchmarks coveragePct
                (packages, test_event lineoutput tests))"

text \<open>The second loop of Parse: every test is appended to the package of its name.\<close>

fun attach_tests :: "Test list \<Rightarrow> Benchmark list \<Rightarrow> string \<Rightarrow> Package list \<Rightarrow> Package list" where
  "attach_tests [] benchmarks coveragePct packages = packages"
| "attach_tests (t # tests) benchmarks coveragePct packages =
     (let (p, packages) = find_or_create_Package packages (Test.Package t) benchmarks coveragePct
      in attach_tests tests benchmarks coveragePct
           (packages[p := (packages ! p)\<lparr>Tests := Tests (packages ! p) @ [t]\<rparr>]))"

definition Parse :: "unmarshal \<Rightarrow> reader \<Rightarrow> string \<Rightarrow> error + Report" where
  "Parse Unmarshal r pkgName =
     (let benchmarks = []; coveragePct = ''''
      in case parse_lines Unmarshal r benchmarks coveragePct ([], []) of
           Inl err \<Rightarrow> Inl err
         | Inr (packages, tests) \<Rightarrow>
             Inr \<lparr>Packages = attach_tests tests benchmarks coveragePct packages\<rparr>)"

text \<open>\<^verbatim>\<open>Failures\<close>: the two nested loops, with the counter threaded through.\<close>

definition Failures :: "Report \<Rightarrow> int" where
  "Failures r =
     fold (\<lambda>p count. fold (\<lambda>t count. if Result t = FAIL then count + 1 else count) (Tests p) count)
       (Packages r) 0"

section \<open>Notions for stating the properties\<close>

text \<open>
  The lines that Parse reads from a reader (those before the first error or
  \<^verbatim>\<open>io.EOF\<close>), the error that ends the reading if it is not \<^verbatim>\<open>io.EOF\<close>, and the
  events: what the decoder leaves in a zero-valued \<^verbatim>\<open>LineOutput\<close> for each line read.
  The other definitions name the pieces of the loop body: the new entries, the update an
  event applies to the entry it finds, and the entry that a name has after all events.
\<close>

fun lines_read :: "reader \<Rightarrow> string list" where
  "lines_read [] = []"
| "lines_read (Inl err # r) = []"
| "lines_read (Inr l # r) = l # lines_read r"

fun read_error :: "reader \<Rightarrow> error option" where
  "read_error [] = None"
| "read_error (Inl err # r) = (if err = EOF then None else Some err)"
| "read_error (Inr l # r) = read_error r"

definition events :: "unmarshal \<Rightarrow> reader \<Rightarrow> LineOutput list" where
  "events Unmarshal r = map (\<lambda>l. snd (Unmarshal l LineOutput_zero)) (lines_read r)"

definition elapsed_Duration :: "LineOutput \<Rightarrow> int" where
  "elapsed_Duration e = time_Duration (float32_mul (Elapsed e) (float32_of_Duration Second))"

definition new_Test :: "LineOutput \<Rightarrow> Test" where
  "new_Test e =
     \<lparr>Test.Name = LineOutput.Test e, Package = LineOutput.Package e, Duration = 0,
      Result = FAIL, Output = [], SubtestIndent = '''', Time = 0\<rparr>"

definition update_Test :: "LineOutput \<Rightarrow> Test \<Rightarrow> Test" where
  "update_Test e t =
     (let t = (if Action e = ''output'' then t\<lparr>Test.Output := Test.Output t @ [LineOutput.Output e]\<rparr> else t)
      in if Action e = ''pass'' \<or> Action e = ''fail''
         then (if Action e = ''pass'' then t\<lparr>Result := PASS\<rparr> else t)\<lparr>Test.Duration := elapsed_Duration e\<rparr>
         else t)"

definition new_Package :: "string \<Rightarrow> Benchmark list \<Rightarrow> string \<Rightarrow> Package" where
  "new_Package name benchmarks coveragePct =
     \<lparr>Package.Name = name, Duration = 0, Tests = [], Benchmarks = benchmarks,
      CoveragePct = coveragePct, Time = 0\<rparr>"

definition update_Package :: "LineOutput \<Rightarrow> Package \<Rightarrow> Package" where
  "update_Package e p =
     (if Action e = ''pass'' then p\<lparr>Package.Duration := elapsed_Duration e\<rparr> else p)"

definition run_tests :: "LineOutput list \<Rightarrow> Test list" where
  "run_tests es = foldl (\<lambda>tests e. test_event e tests) [] es"

definition run_packages :: "Benchmark list \<Rightarrow> string \<Rightarrow> LineOutput list \<Rightarrow> Package list" where
  "run_packages benchmarks coveragePct es =
     foldl (\<lambda>packages e. package_event e benchmarks coveragePct packages) [] es"

definition expected_Test :: "string \<Rightarrow> LineOutput list \<Rightarrow> Test" where
  "expected_Test n es =
     (let h = filter (\<lambda>e. LineOutput.Test e = n) es
      in foldl (\<lambda>t e. update_Test e t) (new_Test (hd h)) h)"

definition expected_Package :: "Benchmark list \<Rightarrow> string \<Rightarrow> string \<Rightarrow> LineOutput list \<Rightarrow> Package" where
  "expected_Package benchmarks coveragePct n es =
     foldl (\<lambda>p e. update_Package e p) (new_Package n benchmarks coveragePct)
       (filter (\<lambda>e. LineOutput.Package e = n) es)"

definition attach_Test :: "Test \<Rightarrow> Package \<Rightarrow> Package" where
  "attach_Test t p = p\<lparr>Tests := Tests p @ [t]\<rparr>"

definition final_Package :: "Benchmark list \<Rightarrow> string \<Rightarrow> string \<Rightarrow> LineOutput list \<Rightarrow> Test list \<Rightarrow> Package" where
  "final_Package benchmarks coveragePct n es ts =
     (expected_Package benchmarks coveragePct n es)
       \<lparr>Tests := filter (\<lambda>t. Test.Package t = n) ts\<rparr>"

text \<open>
  The entity an event refers to is in a report: the package of a package-scoped event,
  the test of a test-scoped one.
\<close>

definition entity_in_Report :: "LineOutput \<Rightarrow> Report \<Rightarrow> bool" where
  "entity_in_Report e rep =
     (if LineOutput.Test e = ''''
      then LineOutput.Package e \<in> Package.Name ` set (Packages rep)
      else LineOutput.Test e \<in> Test.Name ` set (concat (map Tests (Packages rep))))"

subsection \<open>Sample lines\<close>

text \<open>
  Lines of a test run, for the examples: the four lines of the specification's example,
  a skip event, a line that is not JSON, and two lines that are JSON objects whose
  \<^verbatim>\<open>Elapsed\<close> is a string instead of a number.
\<close>

definition line_run :: string where
  \<open>line_run = ''{"Action":"run","Package":"p","Test":"t"}''\<close>

definition line_output :: string where
  \<open>line_output =
     ''{"Action":"output","Package":"p","Test":"t","Output":"ok'' @ [CHR 0x5C] @ ''n"}''\<close>

definition line_pass :: string where
  \<open>line_pass = ''{"Action":"pass","Package":"p","Test":"t","Elapsed":0.01}''\<close>

definition line_pass_package :: string where
  \<open>line_pass_package = ''{"Action":"pass","Package":"p","Elapsed":0.02}''\<close>

definition line_skip :: string where
  \<open>line_skip = ''{"Action":"skip","Package":"p","Test":"t","Elapsed":0}''\<close>

definition line_garbage :: string where
  \<open>line_garbage = ''garbage''\<close>

definition line_elapsed_string :: string where
  \<open>line_elapsed_string = ''{"Action":"pass","Package":"p","Elapsed":"fast"}''\<close>

definition line_elapsed_string_test :: string where
  \<open>line_elapsed_string_test = ''{"Action":"run","Package":"p","Test":"t","Elapsed":"fast"}''\<close>

text \<open>
  \<^verbatim>\<open>json.Unmarshal\<close> on these lines, as the documentation of \<^verbatim>\<open>encoding/json\<close>
  describes it. A member of the object is stored in the field of its name and the other
  fields keep their values; a number is stored in \<^verbatim>\<open>Elapsed\<close> as the nearest float32.
  Input that is not valid JSON is rejected with a syntax error before anything is stored.
  For a value that does not fit the type of its field ("If a JSON value is not appropriate
  for a given target type ... Unmarshal skips that field and completes the unmarshaling as
  best it can ... Unmarshal returns an UnmarshalTypeError describing the earliest such
  error") the other members are stored and an error is returned. A line that is not in
  this table is treated like the line that is not JSON; the examples use the listed lines
  only.
\<close>

definition Unmarshal_sample :: unmarshal where
  "Unmarshal_sample l v =
     (if l = line_run
      then (None, v\<lparr>Action := ''run'', LineOutput.Package := ''p'', LineOutput.Test := ''t''\<rparr>)
      else if l = line_output
      then (None, v\<lparr>Action := ''output'', LineOutput.Package := ''p'', LineOutput.Test := ''t'',
                     LineOutput.Output := ''ok'' @ [CHR 0x0A]\<rparr>)
      else if l = line_pass
      then (None, v\<lparr>Action := ''pass'', LineOutput.Package := ''p'', LineOutput.Test := ''t'',
                     Elapsed := float32_round (1 / 100)\<rparr>)
      else if l = line_pass_package
      then (None, v\<lparr>Action := ''pass'', LineOutput.Package := ''p'',
                     Elapsed := float32_round (2 / 100)\<rparr>)
      else if l = line_skip
      then (None, v\<lparr>Action := ''skip'', LineOutput.Package := ''p'', LineOutput.Test := ''t'',
                     Elapsed := float32_round 0\<rparr>)
      else if l = line_elapsed_string
      then (Some (Failure ''json: cannot unmarshal string into Go struct field LineOutput.Elapsed of type float32''),
            v\<lparr>Action := ''pass'', LineOutput.Package := ''p''\<rparr>)
      else if l = line_elapsed_string_test
      then (Some (Failure ''json: cannot unmarshal string into Go struct field LineOutput.Elapsed of type float32''),
            v\<lparr>Action := ''run'', LineOutput.Package := ''p'', LineOutput.Test := ''t''\<rparr>)
      else (Some (Failure ''invalid character'') , v))"


text \<open>
  The report of the specification's example: one package \<open>p\<close> of 20 ms with one test
  \<open>t\<close> that passed in 10 ms and printed one line.
\<close>

definition example_Report :: Report where
  "example_Report =
     \<lparr>Packages =
        [\<lparr>Package.Name = ''p'', Duration = 20 * Millisecond,
          Tests =
            [\<lparr>Test.Name = ''t'', Package = ''p'', Duration = 10 * Millisecond, Result = PASS,
              Output = [''ok'' @ [CHR 0x0A]], SubtestIndent = '''', Time = 0\<rparr>],
          Benchmarks = [], CoveragePct = '''', Time = 0\<rparr>]\<rparr>"


text \<open>
  Two more reports for the examples: a test that passed in a package without a line of
  its own, and a test whose only events are a run and a skip.
\<close>

definition report_no_package_line :: Report where
  "report_no_package_line =
     \<lparr>Packages =
        [\<lparr>Package.Name = ''p'', Duration = 0,
          Tests =
            [\<lparr>Test.Name = ''t'', Package = ''p'', Duration = 10 * Millisecond, Result = PASS,
              Output = [], SubtestIndent = '''', Time = 0\<rparr>],
          Benchmarks = [], CoveragePct = '''', Time = 0\<rparr>]\<rparr>"

definition report_skipped :: Report where
  "report_skipped =
     \<lparr>Packages =
        [\<lparr>Package.Name = ''p'', Duration = 0,
          Tests =
            [\<lparr>Test.Name = ''t'', Package = ''p'', Duration = 0, Result = FAIL,
              Output = [], SubtestIndent = '''', Time = 0\<rparr>],
          Benchmarks = [], CoveragePct = '''', Time = 0\<rparr>]\<rparr>"


text \<open>
  Reports of streams with lines that the decoder rejects: a package line whose
  \<^verbatim>\<open>Elapsed\<close> is a string, a line that is not JSON between the pass lines of a test and
  of its package, and a test line whose \<^verbatim>\<open>Elapsed\<close> is a string.
\<close>

definition report_type_mismatch :: Report where
  "report_type_mismatch =
     \<lparr>Packages =
        [\<lparr>Package.Name = ''p'', Duration = 0, Tests = [], Benchmarks = [], CoveragePct = '''',
          Time = 0\<rparr>]\<rparr>"

definition report_garbage_between :: Report where
  "report_garbage_between =
     \<lparr>Packages =
        [\<lparr>Package.Name = '''', Duration = 0, Tests = [], Benchmarks = [], CoveragePct = '''',
          Time = 0\<rparr>,
         \<lparr>Package.Name = ''p'', Duration = 20 * Millisecond,
          Tests =
            [\<lparr>Test.Name = ''t'', Package = ''p'', Duration = 10 * Millisecond, Result = PASS,
              Output = [], SubtestIndent = '''', Time = 0\<rparr>],
          Benchmarks = [], CoveragePct = '''', Time = 0\<rparr>]\<rparr>"

definition report_test_only :: Report where
  "report_test_only =
     \<lparr>Packages =
        [\<lparr>Package.Name = ''p'', Duration = 0,
          Tests =
            [\<lparr>Test.Name = ''t'', Package = ''p'', Duration = 0, Result = FAIL, Output = [],
              SubtestIndent = '''', Time = 0\<rparr>],
          Benchmarks = [], CoveragePct = '''', Time = 0\<rparr>]\<rparr>"


text \<open>Two entries for a test \<open>t\<close>, as new as a run event leaves them.\<close>

definition entry_t_p :: Test where
  "entry_t_p =
     \<lparr>Test.Name = ''t'', Package = ''p'', Duration = 0, Result = FAIL, Output = [],
      SubtestIndent = '''', Time = 0\<rparr>"

definition entry_t_q :: Test where
  "entry_t_q =
     \<lparr>Test.Name = ''t'', Package = ''q'', Duration = 0, Result = FAIL, Output = [],
      SubtestIndent = '''', Time = 0\<rparr>"

section \<open>Lookup and the loop body\<close>

lemma findTest_loop_Some:
  "findTest_loop n ts name = Some i \<Longrightarrow>
     i < n \<and> Test.Name (ts ! i) = name \<and> (\<forall>j. i < j \<and> j < n \<longrightarrow> Test.Name (ts ! j) \<noteq> name)"
proof (induction n)
  case 0
  then show ?case by simp
next
  case (Suc n)
  show ?case
  proof (cases "Test.Name (ts ! n) = name")
    case True
    with Suc.prems show ?thesis by auto
  next
    case False
    with Suc.prems have "findTest_loop n ts name = Some i" by simp
    from Suc.IH[OF this] False show ?thesis
      by (auto simp: less_Suc_eq)
  qed
qed

lemma findTest_loop_None:
  "findTest_loop n ts name = None \<longleftrightarrow> (\<forall>j<n. Test.Name (ts ! j) \<noteq> name)"
  by (induction n) (auto simp: less_Suc_eq)

lemma findTest_None: "findTest ts name = None \<longleftrightarrow> name \<notin> Test.Name ` set ts"
  unfolding findTest_def findTest_loop_None
  by (metis image_iff in_set_conv_nth nth_mem)

lemma findTest_Some:
  "findTest ts name = Some i \<Longrightarrow>
     i < length ts \<and> Test.Name (ts ! i) = name \<and> (\<forall>j. i < j \<and> j < length ts \<longrightarrow> Test.Name (ts ! j) \<noteq> name)"
  unfolding findTest_def by (rule findTest_loop_Some)

lemma findPackage_loop_Some:
  "findPackage_loop n ps name = Some i \<Longrightarrow>
     i < n \<and> Package.Name (ps ! i) = name \<and> (\<forall>j. i < j \<and> j < n \<longrightarrow> Package.Name (ps ! j) \<noteq> name)"
proof (induction n)
  case 0
  then show ?case by simp
next
  case (Suc n)
  show ?case
  proof (cases "Package.Name (ps ! n) = name")
    case True
    with Suc.prems show ?thesis by auto
  next
    case False
    with Suc.prems have "findPackage_loop n ps name = Some i" by simp
    from Suc.IH[OF this] False show ?thesis
      by (auto simp: less_Suc_eq)
  qed
qed

lemma findPackage_loop_None:
  "findPackage_loop n ps name = None \<longleftrightarrow> (\<forall>j<n. Package.Name (ps ! j) \<noteq> name)"
  by (induction n) (auto simp: less_Suc_eq)

lemma findPackage_None: "findPackage ps name = None \<longleftrightarrow> name \<notin> Package.Name ` set ps"
  unfolding findPackage_def findPackage_loop_None
  by (metis image_iff in_set_conv_nth nth_mem)

lemma findPackage_Some:
  "findPackage ps name = Some i \<Longrightarrow>
     i < length ps \<and> Package.Name (ps ! i) = name \<and> (\<forall>j. i < j \<and> j < length ps \<longrightarrow> Package.Name (ps ! j) \<noteq> name)"
  unfolding findPackage_def by (rule findPackage_loop_Some)

lemma test_event_eq:
  "test_event e ts =
     (case findTest ts (LineOutput.Test e) of
        Some i \<Rightarrow> ts[i := update_Test e (ts ! i)]
      | None \<Rightarrow> ts @ [update_Test e (new_Test e)])"
proof (cases "findTest ts (LineOutput.Test e)")
  case None
  then show ?thesis
    by (simp add: test_event_def update_Test_def new_Test_def elapsed_Duration_def Let_def)
next
  case (Some i)
  then have "i < length ts" by (simp add: findTest_Some)
  with Some show ?thesis
    by (simp add: test_event_def update_Test_def elapsed_Duration_def Let_def)
qed

lemma package_event_eq:
  "package_event e b c ps =
     (case findPackage ps (LineOutput.Package e) of
        Some i \<Rightarrow> ps[i := update_Package e (ps ! i)]
      | None \<Rightarrow> ps @ [update_Package e (new_Package (LineOutput.Package e) b c)])"
proof (cases "findPackage ps (LineOutput.Package e)")
  case None
  then show ?thesis
    by (simp add: package_event_def find_or_create_Package_def update_Package_def new_Package_def
        elapsed_Duration_def)
next
  case (Some i)
  then have "i < length ps" by (simp add: findPackage_Some)
  with Some show ?thesis
    by (simp add: package_event_def find_or_create_Package_def update_Package_def
        elapsed_Duration_def)
qed

lemma update_Test_Name [simp]: "Test.Name (update_Test e t) = Test.Name t"
  by (simp add: update_Test_def Let_def)

lemma update_Package_Name [simp]: "Package.Name (update_Package e p) = Package.Name p"
  by (simp add: update_Package_def)

lemma names_test_event:
  "map Test.Name (test_event e ts) =
     (if LineOutput.Test e \<in> Test.Name ` set ts then map Test.Name ts
      else map Test.Name ts @ [LineOutput.Test e])"
proof (cases "findTest ts (LineOutput.Test e)")
  case None
  then have "LineOutput.Test e \<notin> Test.Name ` set ts"
    by (simp add: findTest_None)
  with None show ?thesis
    by (simp add: test_event_eq new_Test_def)
next
  case (Some i)
  from findTest_Some[OF Some] have i: "i < length ts" and n: "Test.Name (ts ! i) = LineOutput.Test e"
    by simp_all
  from i n have "LineOutput.Test e \<in> Test.Name ` set ts"
    by (metis image_eqI nth_mem)
  moreover have "map Test.Name (ts[i := update_Test e (ts ! i)]) = map Test.Name ts"
    using i by (simp add: map_update list_update_same_conv)
  ultimately show ?thesis using Some by (simp add: test_event_eq)
qed

lemma names_package_event:
  "map Package.Name (package_event e b c ps) =
     (if LineOutput.Package e \<in> Package.Name ` set ps then map Package.Name ps
      else map Package.Name ps @ [LineOutput.Package e])"
proof (cases "findPackage ps (LineOutput.Package e)")
  case None
  then have "LineOutput.Package e \<notin> Package.Name ` set ps"
    by (simp add: findPackage_None)
  with None show ?thesis
    by (simp add: package_event_eq new_Package_def)
next
  case (Some i)
  from findPackage_Some[OF Some] have i: "i < length ps"
    and n: "Package.Name (ps ! i) = LineOutput.Package e"
    by simp_all
  from i n have "LineOutput.Package e \<in> Package.Name ` set ps"
    by (metis image_eqI nth_mem)
  moreover have "map Package.Name (ps[i := update_Package e (ps ! i)]) = map Package.Name ps"
    using i by (simp add: map_update list_update_same_conv)
  ultimately show ?thesis using Some by (simp add: package_event_eq)
qed

lemma run_tests_snoc: "run_tests (es @ [e]) = test_event e (run_tests es)"
  by (simp add: run_tests_def)

lemma run_packages_snoc: "run_packages b c (es @ [e]) = package_event e b c (run_packages b c es)"
  by (simp add: run_packages_def)

lemma run_tests_names:
  "distinct (map Test.Name (run_tests es)) \<and> Test.Name ` set (run_tests es) = LineOutput.Test ` set es"
proof (induction es rule: rev_induct)
  case Nil
  show ?case by (simp add: run_tests_def)
next
  case (snoc e es)
  have "set (map Test.Name (test_event e (run_tests es))) = insert (LineOutput.Test e) (LineOutput.Test ` set es)"
    using snoc by (auto simp: names_test_event)
  then have "Test.Name ` set (test_event e (run_tests es)) = insert (LineOutput.Test e) (LineOutput.Test ` set es)"
    by simp
  moreover have "distinct (map Test.Name (test_event e (run_tests es)))"
    using snoc by (auto simp: names_test_event)
  ultimately show ?case by (simp add: run_tests_snoc)
qed

lemma run_packages_names:
  "distinct (map Package.Name (run_packages b c es)) \<and>
   Package.Name ` set (run_packages b c es) = LineOutput.Package ` set es"
proof (induction es rule: rev_induct)
  case Nil
  show ?case by (simp add: run_packages_def)
next
  case (snoc e es)
  have "set (map Package.Name (package_event e b c (run_packages b c es))) =
        insert (LineOutput.Package e) (LineOutput.Package ` set es)"
    using snoc by (auto simp: names_package_event)
  then have "Package.Name ` set (package_event e b c (run_packages b c es)) =
        insert (LineOutput.Package e) (LineOutput.Package ` set es)"
    by simp
  moreover have "distinct (map Package.Name (package_event e b c (run_packages b c es)))"
    using snoc by (auto simp: names_package_event)
  ultimately show ?case by (simp add: run_packages_snoc)
qed


lemma in_set_list_update:
  assumes "x \<in> set (xs[i := v])" and "i < length xs"
  shows "x = v \<or> (\<exists>j<length xs. j \<noteq> i \<and> x = xs ! j)"
  using assms by (metis in_set_conv_nth length_list_update nth_list_update)

lemma distinct_map_nth:
  assumes "distinct (map f xs)" and "i < length xs" and "j < length xs" and "j \<noteq> i"
  shows "f (xs ! j) \<noteq> f (xs ! i)"
  using assms by (metis distinct_conv_nth length_map nth_map)

lemma expected_Test_snoc_other:
  "LineOutput.Test e \<noteq> n \<Longrightarrow> expected_Test n (es @ [e]) = expected_Test n es"
  by (simp add: expected_Test_def)

lemma expected_Test_snoc_first:
  "LineOutput.Test e \<notin> LineOutput.Test ` set es \<Longrightarrow>
     expected_Test (LineOutput.Test e) (es @ [e]) = update_Test e (new_Test e)"
proof -
  assume "LineOutput.Test e \<notin> LineOutput.Test ` set es"
  then have "filter (\<lambda>x. LineOutput.Test x = LineOutput.Test e) es = []"
    unfolding filter_empty_conv by (metis image_eqI)
  then show ?thesis by (simp add: expected_Test_def)
qed

lemma expected_Test_snoc_same:
  "LineOutput.Test e \<in> LineOutput.Test ` set es \<Longrightarrow>
     expected_Test (LineOutput.Test e) (es @ [e]) =
       update_Test e (expected_Test (LineOutput.Test e) es)"
proof -
  assume "LineOutput.Test e \<in> LineOutput.Test ` set es"
  then have "filter (\<lambda>x. LineOutput.Test x = LineOutput.Test e) es \<noteq> []"
    by (auto simp: filter_empty_conv)
  then show ?thesis by (simp add: expected_Test_def Let_def)
qed

lemma run_tests_expected:
  "t \<in> set (run_tests es) \<Longrightarrow> t = expected_Test (Test.Name t) es"
proof (induction es arbitrary: t rule: rev_induct)
  case Nil
  then show ?case by (simp add: run_tests_def)
next
  case (snoc e es)
  let ?ts = "run_tests es"
  have dist: "distinct (map Test.Name ?ts)"
    and names: "Test.Name ` set ?ts = LineOutput.Test ` set es"
    using run_tests_names[of es] by simp_all
  have old: "t = expected_Test (Test.Name t) (es @ [e])"
    if "t \<in> set ?ts" "Test.Name t \<noteq> LineOutput.Test e" for t
    using that snoc.IH[of t] by (simp add: expected_Test_snoc_other)
  show ?case
  proof (cases "findTest ?ts (LineOutput.Test e)")
    case None
    then have notin: "LineOutput.Test e \<notin> LineOutput.Test ` set es"
      using names by (simp add: findTest_None)
    from snoc.prems None
    have "t \<in> set ?ts \<or> t = update_Test e (new_Test e)"
      by (auto simp: run_tests_snoc test_event_eq)
    then show ?thesis
    proof
      assume t: "t \<in> set ?ts"
      then have "Test.Name t \<noteq> LineOutput.Test e" using notin names by (metis image_eqI)
      with t show ?thesis by (rule old)
    next
      assume "t = update_Test e (new_Test e)"
      then show ?thesis
        using notin by (simp add: expected_Test_snoc_first new_Test_def)
    qed
  next
    case (Some i)
    from findTest_Some[OF Some] have i: "i < length ?ts"
      and n: "Test.Name (?ts ! i) = LineOutput.Test e"
      by simp_all
    from i n have isin: "LineOutput.Test e \<in> LineOutput.Test ` set es"
      using names by (metis image_eqI nth_mem)
    from snoc.prems Some have "t \<in> set (?ts[i := update_Test e (?ts ! i)])"
      by (simp add: run_tests_snoc test_event_eq)
    from in_set_list_update[OF this i]
    show ?thesis
    proof
      assume t: "t = update_Test e (?ts ! i)"
      have "?ts ! i = expected_Test (LineOutput.Test e) es"
        using snoc.IH[of "?ts ! i"] i n by simp
      with t show ?thesis
        using isin n by (simp add: expected_Test_snoc_same)
    next
      assume "\<exists>j<length ?ts. j \<noteq> i \<and> t = ?ts ! j"
      then obtain j where j: "j < length ?ts" "j \<noteq> i" "t = ?ts ! j" by blast
      with dist i have "Test.Name (?ts ! j) \<noteq> Test.Name (?ts ! i)"
        by (simp add: distinct_map_nth)
      with j n have "Test.Name t \<noteq> LineOutput.Test e" by simp
      moreover have "t \<in> set ?ts" using j by simp
      ultimately show ?thesis by (simp add: old)
    qed
  qed
qed

lemma expected_Package_snoc_other:
  "LineOutput.Package e \<noteq> n \<Longrightarrow> expected_Package b c n (es @ [e]) = expected_Package b c n es"
  by (simp add: expected_Package_def)

lemma expected_Package_snoc_same:
  "expected_Package b c (LineOutput.Package e) (es @ [e]) =
     update_Package e (expected_Package b c (LineOutput.Package e) es)"
  by (simp add: expected_Package_def)

lemma expected_Package_unseen:
  "n \<notin> LineOutput.Package ` set es \<Longrightarrow> expected_Package b c n es = new_Package n b c"
proof -
  assume "n \<notin> LineOutput.Package ` set es"
  then have "filter (\<lambda>x. LineOutput.Package x = n) es = []"
    unfolding filter_empty_conv by (metis image_eqI)
  then show ?thesis by (simp add: expected_Package_def)
qed

lemma run_packages_expected:
  "p \<in> set (run_packages b c es) \<Longrightarrow> p = expected_Package b c (Package.Name p) es"
proof (induction es arbitrary: p rule: rev_induct)
  case Nil
  then show ?case by (simp add: run_packages_def)
next
  case (snoc e es)
  let ?ps = "run_packages b c es"
  have dist: "distinct (map Package.Name ?ps)"
    and names: "Package.Name ` set ?ps = LineOutput.Package ` set es"
    using run_packages_names[of b c es] by simp_all
  have old: "p = expected_Package b c (Package.Name p) (es @ [e])"
    if "p \<in> set ?ps" "Package.Name p \<noteq> LineOutput.Package e" for p
    using that snoc.IH[of p] by (simp add: expected_Package_snoc_other)
  show ?case
  proof (cases "findPackage ?ps (LineOutput.Package e)")
    case None
    then have notin: "LineOutput.Package e \<notin> LineOutput.Package ` set es"
      using names by (simp add: findPackage_None)
    from snoc.prems None
    have "p \<in> set ?ps \<or> p = update_Package e (new_Package (LineOutput.Package e) b c)"
      by (auto simp: run_packages_snoc package_event_eq)
    then show ?thesis
    proof
      assume p: "p \<in> set ?ps"
      then have "Package.Name p \<noteq> LineOutput.Package e" using notin names by (metis image_eqI)
      with p show ?thesis by (rule old)
    next
      assume "p = update_Package e (new_Package (LineOutput.Package e) b c)"
      then show ?thesis
        using notin
        by (simp add: expected_Package_snoc_same expected_Package_unseen new_Package_def)
    qed
  next
    case (Some i)
    from findPackage_Some[OF Some] have i: "i < length ?ps"
      and n: "Package.Name (?ps ! i) = LineOutput.Package e"
      by simp_all
    from snoc.prems Some have "p \<in> set (?ps[i := update_Package e (?ps ! i)])"
      by (simp add: run_packages_snoc package_event_eq)
    from in_set_list_update[OF this i]
    show ?thesis
    proof
      assume p: "p = update_Package e (?ps ! i)"
      have "?ps ! i = expected_Package b c (LineOutput.Package e) es"
        using snoc.IH[of "?ps ! i"] i n by simp
      with p show ?thesis
        using n by (simp add: expected_Package_snoc_same)
    next
      assume "\<exists>j<length ?ps. j \<noteq> i \<and> p = ?ps ! j"
      then obtain j where j: "j < length ?ps" "j \<noteq> i" "p = ?ps ! j" by blast
      with dist i have "Package.Name (?ps ! j) \<noteq> Package.Name (?ps ! i)"
        by (simp add: distinct_map_nth)
      with j n have "Package.Name p \<noteq> LineOutput.Package e" by simp
      moreover have "p \<in> set ?ps" using j by simp
      ultimately show ?thesis by (simp add: old)
    qed
  qed
qed

lemma events_simps [simp]:
  "events um [] = []"
  "events um (Inl err # r) = []"
  "events um (Inr l # r) = snd (um l LineOutput_zero) # events um r"
  by (simp_all add: events_def)

lemma parse_lines_eq:
  "parse_lines um r b c (ps, ts) =
     (case read_error r of
        Some err \<Rightarrow> Inl err
      | None \<Rightarrow>
          Inr (foldl (\<lambda>ps e. package_event e b c ps) ps
                 (filter (\<lambda>e. LineOutput.Test e = []) (events um r)),
               foldl (\<lambda>ts e. test_event e ts) ts
                 (filter (\<lambda>e. LineOutput.Test e \<noteq> []) (events um r))))"
proof (induction r arbitrary: ps ts)
  case Nil
  show ?case by simp
next
  case (Cons x r)
  show ?case
  proof (cases x)
    case (Inl err)
    then show ?thesis by (simp split: option.split)
  next
    case (Inr l)
    show ?thesis
      unfolding Inr by (simp add: Cons.IH Let_def split: option.split)
  qed
qed

lemma attach_tests_step:
  "attach_tests (t # ts) b c ps =
     attach_tests ts b c
       (case findPackage ps (Test.Package t) of
          Some i \<Rightarrow> ps[i := attach_Test t (ps ! i)]
        | None \<Rightarrow> ps @ [attach_Test t (new_Package (Test.Package t) b c)])"
proof (cases "findPackage ps (Test.Package t)")
  case None
  then show ?thesis
    by (simp add: find_or_create_Package_def attach_Test_def new_Package_def)
next
  case (Some i)
  then have "i < length ps" by (simp add: findPackage_Some)
  with Some show ?thesis
    by (simp add: find_or_create_Package_def attach_Test_def)
qed

lemma attach_tests_snoc:
  "attach_tests (ts @ [t]) b c ps =
     (let qs = attach_tests ts b c ps
      in case findPackage qs (Test.Package t) of
           Some i \<Rightarrow> qs[i := attach_Test t (qs ! i)]
         | None \<Rightarrow> qs @ [attach_Test t (new_Package (Test.Package t) b c)])"
proof (induction ts arbitrary: ps)
  case Nil
  show ?case by (simp only: append_Nil attach_tests_step attach_tests.simps(1) Let_def)
next
  case (Cons u ts)
  show ?case
    by (simp only: append_Cons attach_tests_step Cons.IH)
qed

lemma Parse_eq:
  "Parse um r pkgName =
     (case read_error r of
        Some err \<Rightarrow> Inl err
      | None \<Rightarrow>
          Inr \<lparr>Packages =
                 attach_tests (run_tests (filter (\<lambda>e. LineOutput.Test e \<noteq> '''') (events um r))) [] ''''
                   (run_packages [] '''' (filter (\<lambda>e. LineOutput.Test e = '''') (events um r)))\<rparr>)"
  by (simp add: Parse_def parse_lines_eq run_tests_def run_packages_def split: option.split)

lemma foldl_update_Package_frame [simp]:
  "Package.Name (foldl (\<lambda>p e. update_Package e p) p0 es) = Package.Name p0"
  "Tests (foldl (\<lambda>p e. update_Package e p) p0 es) = Tests p0"
  "Benchmarks (foldl (\<lambda>p e. update_Package e p) p0 es) = Benchmarks p0"
  "CoveragePct (foldl (\<lambda>p e. update_Package e p) p0 es) = CoveragePct p0"
  "Package.Time (foldl (\<lambda>p e. update_Package e p) p0 es) = Package.Time p0"
  by (induction es rule: rev_induct; simp add: update_Package_def)+

lemma foldl_update_Package_Duration:
  "Package.Duration (foldl (\<lambda>p e. update_Package e p) p0 es) =
     (case filter (\<lambda>e. Action e = ''pass'') es of
        [] \<Rightarrow> Package.Duration p0
      | x # xs \<Rightarrow> elapsed_Duration (last (x # xs)))"
proof (induction es rule: rev_induct)
  case Nil
  show ?case by simp
next
  case (snoc e es)
  then show ?case
    by (cases "filter (\<lambda>e. Action e = ''pass'') es") (simp_all add: update_Package_def)
qed

lemma expected_Package_fields [simp]:
  "Package.Name (expected_Package b c n es) = n"
  "Tests (expected_Package b c n es) = []"
  "Benchmarks (expected_Package b c n es) = b"
  "CoveragePct (expected_Package b c n es) = c"
  "Package.Time (expected_Package b c n es) = 0"
  by (simp_all add: expected_Package_def new_Package_def)

lemma expected_Package_Duration:
  "Package.Duration (expected_Package b c n es) =
     (case filter (\<lambda>e. LineOutput.Package e = n \<and> Action e = ''pass'') es of
        [] \<Rightarrow> 0
      | x # xs \<Rightarrow> elapsed_Duration (last (x # xs)))"
proof -
  have "filter (\<lambda>e. Action e = ''pass'') (filter (\<lambda>e. LineOutput.Package e = n) es) =
        filter (\<lambda>e. LineOutput.Package e = n \<and> Action e = ''pass'') es"
    by (simp add: conj_commute)
  then show ?thesis
    by (simp add: expected_Package_def foldl_update_Package_Duration new_Package_def
        del: filter_filter split: list.split)
qed

lemma foldl_update_Test_frame [simp]:
  "Test.Name (foldl (\<lambda>t e. update_Test e t) t0 es) = Test.Name t0"
  "Test.Package (foldl (\<lambda>t e. update_Test e t) t0 es) = Test.Package t0"
  "SubtestIndent (foldl (\<lambda>t e. update_Test e t) t0 es) = SubtestIndent t0"
  "Test.Time (foldl (\<lambda>t e. update_Test e t) t0 es) = Test.Time t0"
  by (induction es rule: rev_induct; simp add: update_Test_def Let_def)+

lemma foldl_update_Test_Output:
  "Test.Output (foldl (\<lambda>t e. update_Test e t) t0 es) =
     Test.Output t0 @ map LineOutput.Output (filter (\<lambda>e. Action e = ''output'') es)"
  by (induction es rule: rev_induct) (simp_all add: update_Test_def Let_def)

lemma foldl_update_Test_Result:
  "Result (foldl (\<lambda>t e. update_Test e t) t0 es) =
     (if \<exists>e \<in> set es. Action e = ''pass'' then PASS else Result t0)"
  by (induction es rule: rev_induct) (simp_all add: update_Test_def Let_def)

lemma foldl_update_Test_Duration:
  "Test.Duration (foldl (\<lambda>t e. update_Test e t) t0 es) =
     (case filter (\<lambda>e. Action e = ''pass'' \<or> Action e = ''fail'') es of
        [] \<Rightarrow> Test.Duration t0
      | x # xs \<Rightarrow> elapsed_Duration (last (x # xs)))"
proof (induction es rule: rev_induct)
  case Nil
  show ?case by simp
next
  case (snoc e es)
  then show ?case
    by (cases "filter (\<lambda>e. Action e = ''pass'' \<or> Action e = ''fail'') es")
       (simp_all add: update_Test_def Let_def)
qed

lemma attach_Test_Name [simp]: "Package.Name (attach_Test t p) = Package.Name p"
  by (simp add: attach_Test_def)

lemma final_Package_snoc_other:
  "Test.Package t \<noteq> n \<Longrightarrow> final_Package b c n es (ts @ [t]) = final_Package b c n es ts"
  by (simp add: final_Package_def)

lemma final_Package_snoc_same:
  "final_Package b c (Test.Package t) es (ts @ [t]) =
     attach_Test t (final_Package b c (Test.Package t) es ts)"
  by (simp add: final_Package_def attach_Test_def)

lemma final_Package_unseen:
  assumes "n \<notin> LineOutput.Package ` set es" and "n \<notin> Test.Package ` set ts"
  shows "final_Package b c n es ts = new_Package n b c"
proof -
  from assms(2) have "filter (\<lambda>t. Test.Package t = n) ts = []"
    unfolding filter_empty_conv by (metis image_eqI)
  then show ?thesis
    using assms(1) by (simp add: final_Package_def expected_Package_unseen new_Package_def)
qed

lemma attach_tests_final:
  "distinct (map Package.Name (attach_tests ts b c (run_packages b c es))) \<and>
   Package.Name ` set (attach_tests ts b c (run_packages b c es)) =
     LineOutput.Package ` set es \<union> Test.Package ` set ts \<and>
   (\<forall>p \<in> set (attach_tests ts b c (run_packages b c es)).
      p = final_Package b c (Package.Name p) es ts)"
proof (induction ts rule: rev_induct)
  case Nil
  have "p = final_Package b c (Package.Name p) es []" if "p \<in> set (run_packages b c es)" for p
  proof -
    have "Tests (expected_Package b c (Package.Name p) es) = []" by simp
    then have "final_Package b c (Package.Name p) es [] = expected_Package b c (Package.Name p) es"
      by (simp add: final_Package_def)
    with run_packages_expected[OF that] show ?thesis by simp
  qed
  then show ?case
    using run_packages_names[of b c es] by simp
next
  case (snoc t ts)
  let ?qs = "attach_tests ts b c (run_packages b c es)"
  from snoc have dist: "distinct (map Package.Name ?qs)"
    and names: "Package.Name ` set ?qs = LineOutput.Package ` set es \<union> Test.Package ` set ts"
    and IH: "\<And>p. p \<in> set ?qs \<Longrightarrow> p = final_Package b c (Package.Name p) es ts"
    by simp_all
  have old: "p = final_Package b c (Package.Name p) es (ts @ [t])"
    if "p \<in> set ?qs" "Package.Name p \<noteq> Test.Package t" for p
    using that IH[of p] by (simp add: final_Package_snoc_other)
  show ?case
  proof (cases "findPackage ?qs (Test.Package t)")
    case None
    then have notin: "Test.Package t \<notin> Package.Name ` set ?qs"
      by (simp add: findPackage_None)
    let ?new = "attach_Test t (new_Package (Test.Package t) b c)"
    have eq: "attach_tests (ts @ [t]) b c (run_packages b c es) = ?qs @ [?new]"
      using None by (simp add: attach_tests_snoc Let_def)
    have nn: "Package.Name ?new = Test.Package t"
      by (simp add: new_Package_def)
    have "?new = final_Package b c (Test.Package t) es (ts @ [t])"
      using notin names by (simp add: final_Package_snoc_same final_Package_unseen)
    moreover have "Package.Name p \<noteq> Test.Package t" if "p \<in> set ?qs" for p
      using that notin by (metis image_eqI)
    ultimately have "\<forall>p \<in> set (?qs @ [?new]). p = final_Package b c (Package.Name p) es (ts @ [t])"
      using old nn by auto
    moreover have "distinct (map Package.Name (?qs @ [?new]))"
      using dist notin nn by simp
    moreover have "Package.Name ` set (?qs @ [?new]) =
        LineOutput.Package ` set es \<union> Test.Package ` set (ts @ [t])"
      using names nn by auto
    ultimately show ?thesis unfolding eq by blast
  next
    case (Some i)
    from findPackage_Some[OF Some] have i: "i < length ?qs"
      and n: "Package.Name (?qs ! i) = Test.Package t"
      by simp_all
    let ?upd = "?qs[i := attach_Test t (?qs ! i)]"
    have eq: "attach_tests (ts @ [t]) b c (run_packages b c es) = ?upd"
      using Some by (simp add: attach_tests_snoc Let_def)
    have same: "map Package.Name ?upd = map Package.Name ?qs"
      using i by (simp add: map_update list_update_same_conv)
    have isin: "Test.Package t \<in> Package.Name ` set ?qs"
      using i n by (metis image_eqI nth_mem)
    have "p = final_Package b c (Package.Name p) es (ts @ [t])" if "p \<in> set ?upd" for p
      using in_set_list_update[OF that i]
    proof
      assume p: "p = attach_Test t (?qs ! i)"
      have "?qs ! i = final_Package b c (Test.Package t) es ts"
        using IH[of "?qs ! i"] i n by simp
      with p show ?thesis
        using n by (simp add: final_Package_snoc_same)
    next
      assume "\<exists>j<length ?qs. j \<noteq> i \<and> p = ?qs ! j"
      then obtain j where j: "j < length ?qs" "j \<noteq> i" "p = ?qs ! j" by blast
      with dist i have "Package.Name (?qs ! j) \<noteq> Package.Name (?qs ! i)"
        by (simp add: distinct_map_nth)
      with j n have "Package.Name p \<noteq> Test.Package t" by simp
      moreover have "p \<in> set ?qs" using j by simp
      ultimately show ?thesis by (simp add: old)
    qed
    moreover have "distinct (map Package.Name ?upd)"
      using dist same by simp
    moreover have "Package.Name ` set ?upd = LineOutput.Package ` set es \<union> Test.Package ` set (ts @ [t])"
    proof -
      have "Package.Name ` set ?upd = set (map Package.Name ?upd)" by simp
      also have "\<dots> = Package.Name ` set ?qs" unfolding same by simp
      finally show ?thesis using names isin by auto
    qed
    ultimately show ?thesis unfolding eq by blast
  qed
qed

section \<open>The report in terms of the events\<close>

lemma Parse_Inr:
  assumes "Parse um r pkgName = Inr rep"
  shows "read_error r = None"
    and "Packages rep =
           attach_tests (run_tests (filter (\<lambda>e. LineOutput.Test e \<noteq> '''') (events um r))) [] ''''
             (run_packages [] '''' (filter (\<lambda>e. LineOutput.Test e = '''') (events um r)))"
proof -
  show "read_error r = None"
    using assms unfolding Parse_eq by (cases "read_error r") simp_all
  then show "Packages rep =
           attach_tests (run_tests (filter (\<lambda>e. LineOutput.Test e \<noteq> '''') (events um r))) [] ''''
             (run_packages [] '''' (filter (\<lambda>e. LineOutput.Test e = '''') (events um r)))"
    using assms unfolding Parse_eq by auto
qed

lemma Parse_package:
  assumes "Parse um r pkgName = Inr rep" and "p \<in> set (Packages rep)"
  shows "p = final_Package [] '''' (Package.Name p)
               (filter (\<lambda>e. LineOutput.Test e = '''') (events um r))
               (run_tests (filter (\<lambda>e. LineOutput.Test e \<noteq> '''') (events um r)))"
proof -
  from assms have "p \<in> set (attach_tests (run_tests (filter (\<lambda>e. LineOutput.Test e \<noteq> '''') (events um r))) [] ''''
             (run_packages [] '''' (filter (\<lambda>e. LineOutput.Test e = '''') (events um r))))"
    by (simp only: Parse_Inr(2)[OF assms(1)])
  then show ?thesis
    using attach_tests_final[of "run_tests (filter (\<lambda>e. LineOutput.Test e \<noteq> '''') (events um r))"
      "[]" "''''" "filter (\<lambda>e. LineOutput.Test e = '''') (events um r)"]
    by blast
qed

lemma Unmarshal_sample_lines:
  "Unmarshal_sample line_run v =
     (None, v\<lparr>Action := ''run'', LineOutput.Package := ''p'', LineOutput.Test := ''t''\<rparr>)"
  "Unmarshal_sample line_output v =
     (None, v\<lparr>Action := ''output'', LineOutput.Package := ''p'', LineOutput.Test := ''t'',
               LineOutput.Output := ''ok'' @ [CHR 0x0A]\<rparr>)"
  "Unmarshal_sample line_pass v =
     (None, v\<lparr>Action := ''pass'', LineOutput.Package := ''p'', LineOutput.Test := ''t'',
               Elapsed := float32_round (1 / 100)\<rparr>)"
  "Unmarshal_sample line_pass_package v =
     (None, v\<lparr>Action := ''pass'', LineOutput.Package := ''p'',
               Elapsed := float32_round (2 / 100)\<rparr>)"
  "Unmarshal_sample line_skip v =
     (None, v\<lparr>Action := ''skip'', LineOutput.Package := ''p'', LineOutput.Test := ''t'',
               Elapsed := Finite 0\<rparr>)"
  "Unmarshal_sample line_garbage v = (Some (Failure ''invalid character''), v)"
  "Unmarshal_sample line_elapsed_string v =
     (Some (Failure ''json: cannot unmarshal string into Go struct field LineOutput.Elapsed of type float32''),
      v\<lparr>Action := ''pass'', LineOutput.Package := ''p''\<rparr>)"
  "Unmarshal_sample line_elapsed_string_test v =
     (Some (Failure ''json: cannot unmarshal string into Go struct field LineOutput.Elapsed of type float32''),
      v\<lparr>Action := ''run'', LineOutput.Package := ''p'', LineOutput.Test := ''t''\<rparr>)"
  by (simp_all add: Unmarshal_sample_def line_run_def line_output_def line_pass_def
      line_pass_package_def line_skip_def line_garbage_def line_elapsed_string_def
      line_elapsed_string_test_def float32_round_def)

lemma elapsed_10ms:
  "time_Duration (float32_mul (float32_round (1 / 100)) (float32_of_Duration Second)) = 10000000"
  by code_simp

lemma elapsed_20ms:
  "time_Duration (float32_mul (float32_round (2 / 100)) (float32_of_Duration Second)) = 20000000"
  by code_simp

lemma elapsed_zero:
  "time_Duration (float32_mul (Finite 0) (float32_of_Duration Second)) = 0"
  by code_simp

section \<open>Reading the stream\<close>

lemma read_error_append_lines [simp]: "read_error (map Inr ls @ r) = read_error r"
  by (induction ls) simp_all

lemma lines_read_append_lines [simp]: "lines_read (map Inr ls @ r) = ls @ lines_read r"
  by (induction ls) simp_all

lemma lines_read_lines [simp]: "lines_read (map Inr ls) = ls"
  using lines_read_append_lines[of ls "[]"] by simp

lemma read_error_lines [simp]: "read_error (map Inr ls) = None"
  using read_error_append_lines[of ls "[]"] by simp

lemma read_error_Some:
  "read_error r = Some err \<Longrightarrow> err \<noteq> EOF \<and> (\<exists>ls rest. r = map Inr ls @ Inl err # rest)"
proof (induction r)
  case Nil
  then show ?case by simp
next
  case (Cons x r)
  show ?case
  proof (cases x)
    case (Inl e)
    with Cons.prems have "e = err" "err \<noteq> EOF" by (auto split: if_splits)
    with Inl have "x # r = map Inr [] @ Inl err # r" by simp
    with \<open>err \<noteq> EOF\<close> show ?thesis by blast
  next
    case (Inr l)
    with Cons.prems have "read_error r = Some err" by simp
    from Cons.IH[OF this] obtain ls rest where "err \<noteq> EOF" "r = map Inr ls @ Inl err # rest"
      by blast
    with Inr have "x # r = map Inr (l # ls) @ Inl err # rest" by simp
    with \<open>err \<noteq> EOF\<close> show ?thesis by blast
  qed
qed

text \<open>
  Claim C9. A reader is a run of lines followed by nothing, by \<^verbatim>\<open>io.EOF\<close> or by
  another error. When the run of lines ends in an error other than \<^verbatim>\<open>io.EOF\<close>,
  Parse returns that error and no report, whatever the lines before it held and whatever
  follows. When it ends in \<^verbatim>\<open>io.EOF\<close> (or the sequence is used up), Parse returns
  a report and no error, the report of the lines read. Parse returns no report in no
  other case: an error it returns is not \<^verbatim>\<open>io.EOF\<close> and is the first result of the
  reader that is not a line.
\<close>

theorem C9_read_failure_aborts:
  "(err \<noteq> EOF \<longrightarrow> Parse um (map Inr ls @ Inl err # rest) pkgName = Inl err) \<and>
   (\<exists>rep. Parse um (map Inr ls) pkgName = Inr rep \<and>
          Parse um (map Inr ls @ Inl EOF # rest) pkgName = Inr rep) \<and>
   (Parse um r pkgName = Inl err' \<longrightarrow>
      err' \<noteq> EOF \<and> (\<exists>ls' rest'. r = map Inr ls' @ Inl err' # rest'))"
proof (intro conjI impI)
  assume "err \<noteq> EOF"
  then show "Parse um (map Inr ls @ Inl err # rest) pkgName = Inl err"
    by (simp add: Parse_eq)
next
  have "events um (map Inr ls @ Inl EOF # rest) = events um (map Inr ls)"
    by (simp add: events_def)
  then show "\<exists>rep. Parse um (map Inr ls) pkgName = Inr rep \<and>
          Parse um (map Inr ls @ Inl EOF # rest) pkgName = Inr rep"
    by (simp add: Parse_eq)
next
  assume "Parse um r pkgName = Inl err'"
  then have "read_error r = Some err'"
    unfolding Parse_eq by (cases "read_error r") simp_all
  then show "err' \<noteq> EOF" and "\<exists>ls' rest'. r = map Inr ls' @ Inl err' # rest'"
    using read_error_Some by blast+
qed


theorem C9_read_failure_aborts_witness:
  "Parse Unmarshal_sample [Inr line_run, Inl (Failure ''unexpected EOF''), Inr line_pass] '''' =
     Inl (Failure ''unexpected EOF'') \<and>
   (\<exists>rep. Parse Unmarshal_sample [Inr line_run] '''' = Inr rep \<and>
          Parse Unmarshal_sample [Inr line_run, Inl EOF, Inr line_pass] '''' = Inr rep)"
  using C9_read_failure_aborts[of "Failure ''unexpected EOF''" Unmarshal_sample "[line_run]"
      "[Inr line_pass]" "''''" "[]" EOF]
  by simp

section \<open>The example of the specification\<close>

lemma find_simps:
  "findTest [] n = None"
  "findTest [t] n = (if Test.Name t = n then Some 0 else None)"
  "findPackage [] n = None"
  "findPackage [p] n = (if Package.Name p = n then Some 0 else None)"
  by (simp_all add: findTest_def findPackage_def)

lemma elapsed_20ms_normal:
  "time_Duration (float32_mul (float32_round (1 / 50)) (float32_of_Duration Second)) = 20000000"
  by code_simp

text \<open>
  Claim C3. Take four lines that the decoder turns into a run event for test \<open>t\<close> of
  package \<open>p\<close>, an output event for \<open>t\<close> with the output \<open>ok\<close> and a newline, a pass
  event for \<open>t\<close> whose elapsed time is the float32 nearest to 0.01, and a pass event for
  package \<open>p\<close> whose elapsed time is the float32 nearest to 0.02. Parse returns no error
  and the report with the single package \<open>p\<close> of 20 ms, holding the single test \<open>t\<close>
  with result pass, 10 ms and the output sequence of that one fragment; Failures of the
  report is 0. The witness takes the JSON lines of the example and the decoder of the
  sample lines.
\<close>

theorem C3_example_stream:
  assumes "snd (um l1 LineOutput_zero) =
             LineOutput_zero\<lparr>Action := ''run'', LineOutput.Package := ''p'', LineOutput.Test := ''t''\<rparr>"
    and "snd (um l2 LineOutput_zero) =
             LineOutput_zero\<lparr>Action := ''output'', LineOutput.Package := ''p'', LineOutput.Test := ''t'',
               LineOutput.Output := ''ok'' @ [CHR 0x0A]\<rparr>"
    and "snd (um l3 LineOutput_zero) =
             LineOutput_zero\<lparr>Action := ''pass'', LineOutput.Package := ''p'', LineOutput.Test := ''t'',
               Elapsed := float32_round (1 / 100)\<rparr>"
    and "snd (um l4 LineOutput_zero) =
             LineOutput_zero\<lparr>Action := ''pass'', LineOutput.Package := ''p'',
               Elapsed := float32_round (2 / 100)\<rparr>"
  shows "Parse um [Inr l1, Inr l2, Inr l3, Inr l4] pkgName = Inr example_Report \<and>
         Failures example_Report = 0"
proof
  have e1: "snd (um l1 LineOutput_zero) =
      \<lparr>LineOutput.Time = 0, Action = ''run'', Package = ''p'', Test = ''t'', Output = [],
       Elapsed = Finite 0\<rparr>"
    and e2: "snd (um l2 LineOutput_zero) =
      \<lparr>LineOutput.Time = 0, Action = ''output'', Package = ''p'', Test = ''t'',
       Output = ''ok'' @ [CHR 0x0A], Elapsed = Finite 0\<rparr>"
    and e3: "snd (um l3 LineOutput_zero) =
      \<lparr>LineOutput.Time = 0, Action = ''pass'', Package = ''p'', Test = ''t'', Output = [],
       Elapsed = float32_round (1 / 100)\<rparr>"
    and e4: "snd (um l4 LineOutput_zero) =
      \<lparr>LineOutput.Time = 0, Action = ''pass'', Package = ''p'', Test = [], Output = [],
       Elapsed = float32_round (2 / 100)\<rparr>"
    using assms by (simp_all add: LineOutput_zero_def)
  have "parse_lines um [Inr l1, Inr l2, Inr l3, Inr l4] [] '''' ([], []) =
        Inr ([\<lparr>Package.Name = ''p'', Duration = 20000000, Tests = [], Benchmarks = [],
               CoveragePct = '''', Time = 0\<rparr>],
             [\<lparr>Test.Name = ''t'', Package = ''p'', Duration = 10000000, Result = PASS,
               Output = [''ok'' @ [CHR 0x0A]], SubtestIndent = '''', Time = 0\<rparr>])"
    by (simp add: e1 e2 e3 e4 test_event_def package_event_def
        find_or_create_Package_def find_simps elapsed_10ms elapsed_20ms elapsed_20ms_normal)
  then show "Parse um [Inr l1, Inr l2, Inr l3, Inr l4] pkgName = Inr example_Report"
    by (simp add: Parse_def example_Report_def find_or_create_Package_def find_simps
        Millisecond_def)
  show "Failures example_Report = 0"
    by (simp add: Failures_def example_Report_def)
qed

theorem C3_example_stream_witness:
  "Parse Unmarshal_sample [Inr line_run, Inr line_output, Inr line_pass, Inr line_pass_package] '''' =
     Inr example_Report \<and>
   Failures example_Report = 0"
  using C3_example_stream[of Unmarshal_sample line_run line_output line_pass line_pass_package "''''"]
  by (simp add: Unmarshal_sample_lines)

section \<open>Packages and tests of the report\<close>

lemma Parse_tests_of_package:
  assumes "Parse um r pkgName = Inr rep" and "p \<in> set (Packages rep)"
  shows "Tests p = filter (\<lambda>t. Test.Package t = Package.Name p)
           (run_tests (filter (\<lambda>e. LineOutput.Test e \<noteq> '''') (events um r)))"
proof -
  have "Tests p = Tests (final_Package [] '''' (Package.Name p)
               (filter (\<lambda>e. LineOutput.Test e = '''') (events um r))
               (run_tests (filter (\<lambda>e. LineOutput.Test e \<noteq> '''') (events um r))))"
    using Parse_package[OF assms] by (rule arg_cong)
  then show ?thesis by (simp add: final_Package_def)
qed

lemma filter_test_events:
  "n \<noteq> '''' \<Longrightarrow>
   filter (\<lambda>e. LineOutput.Test e = n) (filter (\<lambda>e. LineOutput.Test e \<noteq> '''') es) =
   filter (\<lambda>e. LineOutput.Test e = n) es"
  by (induction es) auto

lemma Parse_test:
  assumes "Parse um r pkgName = Inr rep" and "p \<in> set (Packages rep)" and "t \<in> set (Tests p)"
  shows "Test.Name t \<noteq> ''''"
    and "filter (\<lambda>e. LineOutput.Test e = Test.Name t) (events um r) \<noteq> []"
    and "t = foldl (\<lambda>t e. update_Test e t)
               (new_Test (hd (filter (\<lambda>e. LineOutput.Test e = Test.Name t) (events um r))))
               (filter (\<lambda>e. LineOutput.Test e = Test.Name t) (events um r))"
proof -
  let ?tes = "filter (\<lambda>e. LineOutput.Test e \<noteq> '''') (events um r)"
  from assms(3) have t: "t \<in> set (run_tests ?tes)"
    unfolding Parse_tests_of_package[OF assms(1,2)] by simp
  then have "Test.Name t \<in> Test.Name ` set (run_tests ?tes)" by (rule imageI)
  then have isin: "Test.Name t \<in> LineOutput.Test ` set ?tes"
    using run_tests_names[of ?tes] by simp
  then obtain e where e: "e \<in> set ?tes" "LineOutput.Test e = Test.Name t" by auto
  then show n: "Test.Name t \<noteq> ''''" by auto
  from e have "e \<in> set (events um r)" by simp
  with e(2) show "filter (\<lambda>e. LineOutput.Test e = Test.Name t) (events um r) \<noteq> []"
    unfolding filter_empty_conv by blast
  from run_tests_expected[OF t] show "t = foldl (\<lambda>t e. update_Test e t)
               (new_Test (hd (filter (\<lambda>e. LineOutput.Test e = Test.Name t) (events um r))))
               (filter (\<lambda>e. LineOutput.Test e = Test.Name t) (events um r))"
    unfolding expected_Test_def Let_def filter_test_events[OF n] .
qed

lemmas Parse_eval =
  Parse_def Unmarshal_sample_lines LineOutput_zero_def test_event_def package_event_def
  find_or_create_Package_def find_simps elapsed_10ms elapsed_20ms elapsed_20ms_normal elapsed_zero

lemma Parse_no_package_line:
  "Parse Unmarshal_sample [Inr line_run, Inr line_pass] pkgName = Inr report_no_package_line"
  by (simp add: Parse_eval report_no_package_line_def Millisecond_def)

lemma Parse_skipped:
  "Parse Unmarshal_sample [Inr line_run, Inr line_skip] pkgName = Inr report_skipped"
  by (simp add: Parse_eval report_skipped_def)

lemma Parse_example:
  "Parse Unmarshal_sample [Inr line_run, Inr line_output, Inr line_pass, Inr line_pass_package]
     pkgName = Inr example_Report"
  by (simp add: Parse_eval example_Report_def Millisecond_def)

text \<open>
  Claim C5. In the report that Parse returns, the Duration of a package is decided by the
  package-scoped events (empty test name) of its name with the action \<open>pass\<close>: without
  such an event it is 0, whatever the tests of the package hold and whatever other events
  name the package; with such events it is the elapsed time of the last of them, the
  float32 product of \<^verbatim>\<open>Elapsed\<close> and one second, truncated to a Duration. The witness
  is a package whose test took 10 ms and whose own Duration is 0.
\<close>

theorem C5_package_duration:
  assumes "Parse um r pkgName = Inr rep" and "p \<in> set (Packages rep)"
  shows "Package.Duration p =
     (case filter (\<lambda>e. LineOutput.Test e = '''' \<and> LineOutput.Package e = Package.Name p \<and>
                        Action e = ''pass'') (events um r) of
        [] \<Rightarrow> 0
      | x # xs \<Rightarrow> elapsed_Duration (last (x # xs)))"
proof -
  let ?pes = "filter (\<lambda>e. LineOutput.Test e = '''') (events um r)"
  have "Package.Duration p = Package.Duration (final_Package [] '''' (Package.Name p) ?pes
               (run_tests (filter (\<lambda>e. LineOutput.Test e \<noteq> '''') (events um r))))"
    using Parse_package[OF assms] by (rule arg_cong)
  also have "\<dots> = Package.Duration (expected_Package [] '''' (Package.Name p) ?pes)"
    by (simp add: final_Package_def)
  also have "\<dots> = (case filter (\<lambda>e. LineOutput.Package e = Package.Name p \<and> Action e = ''pass'') ?pes of
        [] \<Rightarrow> 0
      | x # xs \<Rightarrow> elapsed_Duration (last (x # xs)))"
    by (rule expected_Package_Duration)
  also have "filter (\<lambda>e. LineOutput.Package e = Package.Name p \<and> Action e = ''pass'') ?pes =
     filter (\<lambda>e. LineOutput.Test e = '''' \<and> LineOutput.Package e = Package.Name p \<and>
                        Action e = ''pass'') (events um r)"
    by (simp add: conj_commute conj_left_commute)
  finally show ?thesis .
qed

theorem C5_package_duration_witness:
  "Parse Unmarshal_sample [Inr line_run, Inr line_pass] '''' = Inr report_no_package_line \<and>
   hd (Packages report_no_package_line) \<in> set (Packages report_no_package_line) \<and>
   Test.Duration (hd (Tests (hd (Packages report_no_package_line)))) = 10 * Millisecond \<and>
   Package.Duration (hd (Packages report_no_package_line)) = 0"
  using C5_package_duration[of Unmarshal_sample "[Inr line_run, Inr line_pass]" "''''"
      report_no_package_line "hd (Packages report_no_package_line)"]
  by (simp add: Parse_no_package_line report_no_package_line_def)

text \<open>
  Claim C6. A test of the report has a non-empty name, and its Result is pass exactly
  when some event of its name has the action \<open>pass\<close>; otherwise the Result is fail, so
  no test is in the skip state and a test that ended with \<open>skip\<close> is reported as
  failed. Its Duration is the elapsed time of the last event of its name whose action is
  \<open>pass\<close> or \<open>fail\<close>, and 0 when there is none. The witness is a test with a run and a
  skip event.
\<close>

theorem C6_test_result:
  assumes "Parse um r pkgName = Inr rep" and "p \<in> set (Packages rep)" and "t \<in> set (Tests p)"
  shows "Test.Name t \<noteq> '''' \<and>
     (Result t = PASS \<longleftrightarrow>
        (\<exists>e \<in> set (events um r). LineOutput.Test e = Test.Name t \<and> Action e = ''pass'')) \<and>
     (Result t \<noteq> PASS \<longrightarrow> Result t = FAIL) \<and>
     Test.Duration t =
       (case filter (\<lambda>e. LineOutput.Test e = Test.Name t \<and>
                          (Action e = ''pass'' \<or> Action e = ''fail'')) (events um r) of
          [] \<Rightarrow> 0
        | x # xs \<Rightarrow> elapsed_Duration (last (x # xs)))"
proof -
  let ?h = "filter (\<lambda>e. LineOutput.Test e = Test.Name t) (events um r)"
  note pt = Parse_test[OF assms]
  have res: "Result t = (if \<exists>e \<in> set ?h. Action e = ''pass'' then PASS else FAIL)"
  proof -
    have "Result t = Result (foldl (\<lambda>t e. update_Test e t) (new_Test (hd ?h)) ?h)"
      using pt(3) by (rule arg_cong)
    also have "\<dots> = (if \<exists>e \<in> set ?h. Action e = ''pass'' then PASS else Result (new_Test (hd ?h)))"
      by (rule foldl_update_Test_Result)
    also have "Result (new_Test (hd ?h)) = FAIL"
      by (simp add: new_Test_def)
    finally show ?thesis .
  qed
  have dur: "Test.Duration t =
       (case filter (\<lambda>e. Action e = ''pass'' \<or> Action e = ''fail'') ?h of
          [] \<Rightarrow> 0
        | x # xs \<Rightarrow> elapsed_Duration (last (x # xs)))"
  proof -
    have "Test.Duration t = Test.Duration (foldl (\<lambda>t e. update_Test e t) (new_Test (hd ?h)) ?h)"
      using pt(3) by (rule arg_cong)
    also have "\<dots> = (case filter (\<lambda>e. Action e = ''pass'' \<or> Action e = ''fail'') ?h of
          [] \<Rightarrow> Test.Duration (new_Test (hd ?h))
        | x # xs \<Rightarrow> elapsed_Duration (last (x # xs)))"
      by (rule foldl_update_Test_Duration)
    also have "Test.Duration (new_Test (hd ?h)) = 0"
      by (simp add: new_Test_def)
    finally show ?thesis .
  qed
  have f: "filter (\<lambda>e. Action e = ''pass'' \<or> Action e = ''fail'') ?h =
        filter (\<lambda>e. LineOutput.Test e = Test.Name t \<and>
                          (Action e = ''pass'' \<or> Action e = ''fail'')) (events um r)"
    by (simp add: conj_commute)
  have ex: "(\<exists>e \<in> set ?h. Action e = ''pass'') \<longleftrightarrow>
        (\<exists>e \<in> set (events um r). LineOutput.Test e = Test.Name t \<and> Action e = ''pass'')"
    by auto
  from res ex have "Result t = PASS \<longleftrightarrow>
        (\<exists>e \<in> set (events um r). LineOutput.Test e = Test.Name t \<and> Action e = ''pass'')"
    by (simp only: split: if_splits) auto
  moreover from res have "Result t \<noteq> PASS \<longrightarrow> Result t = FAIL"
    by (simp only: split: if_splits) auto
  moreover note pt(1) dur[unfolded f]
  ultimately show ?thesis by blast
qed

theorem C6_test_result_witness:
  "Parse Unmarshal_sample [Inr line_run, Inr line_skip] '''' = Inr report_skipped \<and>
   hd (Packages report_skipped) \<in> set (Packages report_skipped) \<and>
   hd (Tests (hd (Packages report_skipped))) \<in> set (Tests (hd (Packages report_skipped))) \<and>
   Result (hd (Tests (hd (Packages report_skipped)))) = FAIL \<and>
   Test.Duration (hd (Tests (hd (Packages report_skipped)))) = 0"
  using C6_test_result[of Unmarshal_sample "[Inr line_run, Inr line_skip]" "''''"
      report_skipped "hd (Packages report_skipped)" "hd (Tests (hd (Packages report_skipped)))"]
  by (simp add: Parse_skipped report_skipped_def)

text \<open>
  Claim C2 says that the deprecated field Time of every package and test is its Duration
  in milliseconds. Parse never assigns Time: in the report of the specification's example
  the package has 20 ms and the test 10 ms of Duration, and both have Time 0.
\<close>

theorem C2_Time_mirror_counterexample:
  "Parse Unmarshal_sample [Inr line_run, Inr line_output, Inr line_pass, Inr line_pass_package] ''''
     = Inr example_Report \<and>
   Package.Duration (hd (Packages example_Report)) div Millisecond = 20 \<and>
   Package.Time (hd (Packages example_Report)) = 0 \<and>
   Test.Duration (hd (Tests (hd (Packages example_Report)))) div Millisecond = 10 \<and>
   Test.Time (hd (Tests (hd (Packages example_Report)))) = 0"
  by (simp add: Parse_example example_Report_def Millisecond_def)

text \<open>
  Claim C2, amended. Parse does not write the deprecated field: in the report it returns,
  the Time of every package and of every test is 0, whatever the Duration is.
\<close>

theorem C2_Time_never_written:
  assumes "Parse um r pkgName = Inr rep" and "p \<in> set (Packages rep)"
  shows "Package.Time p = 0 \<and> (\<forall>t \<in> set (Tests p). Test.Time t = 0)"
proof
  have "Package.Time p = Package.Time (final_Package [] '''' (Package.Name p)
               (filter (\<lambda>e. LineOutput.Test e = '''') (events um r))
               (run_tests (filter (\<lambda>e. LineOutput.Test e \<noteq> '''') (events um r))))"
    using Parse_package[OF assms] by (rule arg_cong)
  then show "Package.Time p = 0" by (simp add: final_Package_def)
  show "\<forall>t \<in> set (Tests p). Test.Time t = 0"
  proof
    fix t assume t: "t \<in> set (Tests p)"
    let ?h = "filter (\<lambda>e. LineOutput.Test e = Test.Name t) (events um r)"
    have "Test.Time t = Test.Time (foldl (\<lambda>t e. update_Test e t) (new_Test (hd ?h)) ?h)"
      using Parse_test(3)[OF assms t] by (rule arg_cong)
    then show "Test.Time t = 0" by (simp add: new_Test_def)
  qed
qed

theorem C2_Time_never_written_witness:
  "Parse Unmarshal_sample [Inr line_run, Inr line_output, Inr line_pass, Inr line_pass_package] ''''
     = Inr example_Report \<and>
   hd (Packages example_Report) \<in> set (Packages example_Report) \<and>
   Package.Time (hd (Packages example_Report)) = 0 \<and>
   Test.Time (hd (Tests (hd (Packages example_Report)))) = 0"
  using C2_Time_never_written[of Unmarshal_sample
      "[Inr line_run, Inr line_output, Inr line_pass, Inr line_pass_package]" "''''"
      example_Report "hd (Packages example_Report)"]
  by (simp add: Parse_example example_Report_def)

section \<open>Every test is reported once\<close>

lemma count_attach_update:
  assumes "i < length ps"
  shows "length (filter Q (concat (map Tests (ps[i := attach_Test t (ps ! i)])))) =
         length (filter Q (concat (map Tests ps))) + length (filter Q [t])"
proof -
  let ?l = "take i ps" and ?r = "drop (Suc i) ps"
  have upd: "ps[i := attach_Test t (ps ! i)] = ?l @ attach_Test t (ps ! i) # ?r"
    using assms by (simp add: upd_conv_take_nth_drop)
  have "length (filter Q (concat (map Tests ps))) =
        length (filter Q (concat (map Tests (?l @ ps ! i # ?r))))"
    using id_take_nth_drop[OF assms] by simp
  then show ?thesis
    unfolding upd by (simp add: attach_Test_def)
qed

lemma attach_tests_count:
  "length (filter Q (concat (map Tests (attach_tests ts b c ps)))) =
   length (filter Q (concat (map Tests ps))) + length (filter Q ts)"
proof (induction ts arbitrary: ps)
  case Nil
  show ?case by simp
next
  case (Cons t ts)
  show ?case
  proof (cases "findPackage ps (Test.Package t)")
    case None
    then show ?thesis
      unfolding attach_tests_step Cons.IH
      by (simp add: attach_Test_def new_Package_def)
  next
    case (Some i)
    then have "i < length ps" by (simp add: findPackage_Some)
    from count_attach_update[OF this, of Q t] Some show ?thesis
      unfolding attach_tests_step Cons.IH by simp
  qed
qed

lemma run_packages_no_tests: "concat (map Tests (run_packages b c es)) = []"
proof -
  have "Tests p = []" if "p \<in> set (run_packages b c es)" for p
  proof -
    have "Tests p = Tests (expected_Package b c (Package.Name p) es)"
      using run_packages_expected[OF that] by (rule arg_cong)
    then show ?thesis by simp
  qed
  then show ?thesis by simp
qed

lemma distinct_count_one:
  "distinct (map f xs) \<Longrightarrow> k \<in> f ` set xs \<Longrightarrow> length (filter (\<lambda>x. f x = k) xs) = 1"
proof (induction xs)
  case Nil
  then show ?case by simp
next
  case (Cons x xs)
  show ?case
  proof (cases "f x = k")
    case True
    with Cons.prems(1) have "filter (\<lambda>x. f x = k) xs = []"
      unfolding filter_empty_conv by (metis distinct.simps(2) image_eqI list.simps(9) set_map)
    with True show ?thesis by simp
  next
    case False
    with Cons show ?thesis by auto
  qed
qed

lemma Parse_test_once:
  assumes "Parse um r pkgName = Inr rep"
    and "e \<in> set (events um r)" and "LineOutput.Test e \<noteq> ''''"
  shows "length (filter (\<lambda>t. Test.Name t = LineOutput.Test e)
           (concat (map Tests (Packages rep)))) = 1"
proof -
  let ?tes = "filter (\<lambda>e. LineOutput.Test e \<noteq> '''') (events um r)"
  let ?pes = "filter (\<lambda>e. LineOutput.Test e = '''') (events um r)"
  from assms(2,3) have "LineOutput.Test e \<in> LineOutput.Test ` set ?tes" by simp
  then have "length (filter (\<lambda>t. Test.Name t = LineOutput.Test e) (run_tests ?tes)) = 1"
    using run_tests_names[of ?tes] by (simp add: distinct_count_one)
  then show ?thesis
    unfolding Parse_Inr(2)[OF assms(1)] attach_tests_count run_packages_no_tests by simp
qed

text \<open>
  Claim C4. A test is identified by its name, as in the lookup of the parser. For every
  stream that Parse reads to its end, every name carried by a test-scoped event (an event
  with a non-empty test name) is the name of exactly one entry among the tests of all
  packages of the report: it is in the list of one package, once. No condition on the
  order or the form of the events is needed.
\<close>

theorem C4_test_exactly_once:
  assumes "Parse um r pkgName = Inr rep"
    and "e \<in> set (events um r)" and "LineOutput.Test e \<noteq> ''''"
  shows "length (filter (\<lambda>t. Test.Name t = LineOutput.Test e)
           (concat (map Tests (Packages rep)))) = 1"
  using assms by (rule Parse_test_once)

theorem C4_test_exactly_once_witness:
  "Parse Unmarshal_sample [Inr line_run, Inr line_output, Inr line_pass, Inr line_pass_package] ''''
     = Inr example_Report \<and>
   LineOutput.Test (snd (Unmarshal_sample line_output LineOutput_zero)) = ''t'' \<and>
   length (filter (\<lambda>t. Test.Name t = ''t'') (concat (map Tests (Packages example_Report)))) = 1"
  using C4_test_exactly_once[of Unmarshal_sample
      "[Inr line_run, Inr line_output, Inr line_pass, Inr line_pass_package]" "''''"
      example_Report "snd (Unmarshal_sample line_output LineOutput_zero)"]
  by (simp add: Parse_example Unmarshal_sample_lines)

section \<open>The default package name\<close>

text \<open>The parameter \<^verbatim>\<open>pkgName\<close> occurs nowhere in the body of Parse.\<close>

lemma Parse_ignores_pkgName: "Parse um r pkgName = Parse um r pkgName'"
  by (simp add: Parse_def)

text \<open>
  Claim C1 says that a package known from test-scoped events only is labelled with the
  default package name given by the caller, as the comment above Parse promises ("An
  optional pkgName can be given, which is used in case a package result line is
  missing"). The code labels it with the package name of the test: for the run and pass
  events of test \<open>t\<close> of package \<open>p\<close>, without a line of the package, and the default
  name \<open>default\<close>, the report holds one package and its name is \<open>p\<close>.
\<close>

theorem C1_default_name_not_used:
  "Parse Unmarshal_sample [Inr line_run, Inr line_pass] ''default'' = Inr report_no_package_line \<and>
   map Package.Name (Packages report_no_package_line) = [''p'']"
  by (simp add: Parse_no_package_line report_no_package_line_def)

section \<open>Lookup of the most recent entry\<close>

lemma foldl_test_event_distinct:
  "distinct (map Test.Name ts) \<Longrightarrow>
   distinct (map Test.Name (foldl (\<lambda>ts e. test_event e ts) ts es))"
proof (induction es arbitrary: ts)
  case Nil
  then show ?case by simp
next
  case (Cons e es)
  from Cons.prems have "distinct (map Test.Name (test_event e ts))"
    by (auto simp: names_test_event)
  from Cons.IH[OF this] show ?case by simp
qed

lemma parse_lines_distinct:
  assumes "distinct (map Test.Name ts)"
    and "parse_lines um r b c (ps, ts) = Inr (ps', ts')"
  shows "distinct (map Test.Name ts')"
proof -
  from assms(2) have "ts' = foldl (\<lambda>ts e. test_event e ts) ts
      (filter (\<lambda>e. LineOutput.Test e \<noteq> []) (events um r))"
    unfolding parse_lines_eq by (cases "read_error r") simp_all
  with assms(1) show ?thesis by (simp only: foldl_test_event_distinct)
qed

lemma count_le_one_distinct:
  "(\<And>k. length (filter (\<lambda>x. f x = k) xs) \<le> 1) \<Longrightarrow> distinct (map f xs)"
proof (induction xs)
  case Nil
  show ?case by simp
next
  case (Cons x xs)
  have rest: "length (filter (\<lambda>y. f y = k) xs) \<le> 1" for k
    using Cons.prems[of k] by (simp split: if_splits)
  have "filter (\<lambda>y. f y = f x) xs = []"
    using Cons.prems[of "f x"] by simp
  then have "f x \<notin> f ` set xs"
    unfolding filter_empty_conv by (metis (mono_tags, lifting) image_iff)
  with Cons.IH[OF rest] show ?case by simp
qed

lemma distinct_count_le_one:
  "distinct (map f xs) \<Longrightarrow> length (filter (\<lambda>x. f x = k) xs) \<le> 1"
proof (cases "k \<in> f ` set xs")
  case True
  assume "distinct (map f xs)"
  with True show ?thesis by (simp add: distinct_count_one)
next
  case False
  then have "filter (\<lambda>x. f x = k) xs = []"
    unfolding filter_empty_conv by (metis image_eqI)
  then show ?thesis by simp
qed

lemma Parse_distinct_tests:
  assumes "Parse um r pkgName = Inr rep"
  shows "distinct (map Test.Name (concat (map Tests (Packages rep))))"
proof (rule count_le_one_distinct)
  fix k
  let ?tes = "filter (\<lambda>e. LineOutput.Test e \<noteq> '''') (events um r)"
  have "distinct (map Test.Name (run_tests ?tes))"
    using run_tests_names[of ?tes] by simp
  then have "length (filter (\<lambda>t. Test.Name t = k) (run_tests ?tes)) \<le> 1"
    by (rule distinct_count_le_one)
  then show "length (filter (\<lambda>t. Test.Name t = k) (concat (map Tests (Packages rep)))) \<le> 1"
    unfolding Parse_Inr(2)[OF assms] attach_tests_count run_packages_no_tests by simp
qed

lemma test_event_present_run:
  assumes "LineOutput.Test e \<in> Test.Name ` set ts"
    and "Action e \<noteq> ''output''" and "Action e \<noteq> ''pass''" and "Action e \<noteq> ''fail''"
  shows "test_event e ts = ts"
proof -
  from assms(1) have "findTest ts (LineOutput.Test e) \<noteq> None" by (simp add: findTest_None)
  then obtain i where "findTest ts (LineOutput.Test e) = Some i" by blast
  then show ?thesis
    using assms(2-) by (simp add: test_event_eq update_Test_def)
qed

lemma test_event_output:
  assumes "findTest ts (LineOutput.Test e) = Some i" and "Action e = ''output''"
  shows "test_event e ts =
         ts[i := (ts ! i)\<lparr>Test.Output := Test.Output (ts ! i) @ [LineOutput.Output e]\<rparr>]"
  using assms by (simp add: test_event_eq update_Test_def)

text \<open>
  Claim C7 says that after two run events for a test \<open>T\<close> an output event for \<open>T\<close> is
  appended to the entry created second. The second run event creates nothing: after the
  two events the list of tests holds one entry, and the output goes to that entry, the
  one created first.
\<close>

theorem C7_second_entry_counterexample:
  "parse_lines Unmarshal_sample [Inr line_run, Inr line_run] [] '''' ([], []) =
     Inr ([],
          [\<lparr>Test.Name = ''t'', Package = ''p'', Duration = 0, Result = FAIL, Output = [],
            SubtestIndent = '''', Time = 0\<rparr>]) \<and>
   parse_lines Unmarshal_sample [Inr line_run, Inr line_run, Inr line_output] [] '''' ([], []) =
     Inr ([],
          [\<lparr>Test.Name = ''t'', Package = ''p'', Duration = 0, Result = FAIL,
            Output = [''ok'' @ [CHR 0x0A]], SubtestIndent = '''', Time = 0\<rparr>])"
  by (simp add: Parse_eval)

text \<open>
  Claim C7, amended. The lookup returns the most recently added entry of the given name:
  it returns \<^verbatim>\<open>nil\<close> exactly when no entry has the name, and otherwise the entry of
  that name with the greatest index (over a list of two entries named \<open>T\<close>, the second).
  Parse never holds two entries of one name: the names in its list of tests stay pairwise
  distinct over every stream, and so do the names of the tests of the report. A run event
  for a name that has an entry creates nothing and changes nothing; the fragment of an
  output event is appended to the entry that the lookup returns. So of two run events
  for \<open>T\<close> the second finds the entry that the first created, and the fragment of an
  output event for \<open>T\<close> that follows is appended to this one entry.
\<close>

theorem C7_most_recent_match:
  "(findTest tests name = None \<longleftrightarrow> name \<notin> Test.Name ` set tests) \<and>
   (findTest tests name = Some i \<longrightarrow>
      i < length tests \<and> Test.Name (tests ! i) = name \<and>
      (\<forall>j. i < j \<and> j < length tests \<longrightarrow> Test.Name (tests ! j) \<noteq> name)) \<and>
   (Test.Name t2 = name \<longrightarrow> findTest [t1, t2] name = Some 1) \<and>
   (distinct (map Test.Name tests) \<and>
      parse_lines um r b c (packages, tests) = Inr (packages', tests') \<longrightarrow>
      distinct (map Test.Name tests')) \<and>
   (Parse um r pkgName = Inr rep \<longrightarrow>
      distinct (map Test.Name (concat (map Tests (Packages rep))))) \<and>
   (LineOutput.Test (snd (um l LineOutput_zero)) = name \<and> name \<noteq> '''' \<and>
      name \<in> Test.Name ` set tests \<and> Action (snd (um l LineOutput_zero)) = ''run'' \<longrightarrow>
      parse_lines um [Inr l] b c (packages, tests) = Inr (packages, tests)) \<and>
   (LineOutput.Test (snd (um l LineOutput_zero)) = name \<and> name \<noteq> '''' \<and>
      findTest tests name = Some i \<and> Action (snd (um l LineOutput_zero)) = ''output'' \<longrightarrow>
      parse_lines um [Inr l] b c (packages, tests) =
        Inr (packages,
             tests[i := (tests ! i)
               \<lparr>Test.Output := Test.Output (tests ! i) @
                  [LineOutput.Output (snd (um l LineOutput_zero))]\<rparr>])) \<and>
   (LineOutput.Test (snd (um l1 LineOutput_zero)) = name \<and>
      LineOutput.Test (snd (um l2 LineOutput_zero)) = name \<and>
      LineOutput.Test (snd (um l3 LineOutput_zero)) = name \<and> name \<noteq> '''' \<and>
      Action (snd (um l1 LineOutput_zero)) = ''run'' \<and>
      Action (snd (um l2 LineOutput_zero)) = ''run'' \<and>
      Action (snd (um l3 LineOutput_zero)) = ''output'' \<longrightarrow>
      parse_lines um [Inr l1, Inr l2, Inr l3] [] '''' ([], []) =
        Inr ([],
             [\<lparr>Test.Name = name, Package = LineOutput.Package (snd (um l1 LineOutput_zero)),
               Duration = 0, Result = FAIL,
               Output = [LineOutput.Output (snd (um l3 LineOutput_zero))],
               SubtestIndent = '''', Time = 0\<rparr>]))"
proof (intro conjI impI)
  show "findTest tests name = None \<longleftrightarrow> name \<notin> Test.Name ` set tests"
    by (rule findTest_None)
next
  assume "findTest tests name = Some i"
  from findTest_Some[OF this]
  show "i < length tests" and "Test.Name (tests ! i) = name"
    and "\<forall>j. i < j \<and> j < length tests \<longrightarrow> Test.Name (tests ! j) \<noteq> name"
    by blast+
next
  assume "Test.Name t2 = name"
  then show "findTest [t1, t2] name = Some 1"
    by (simp add: findTest_def numeral_2_eq_2)
next
  assume "distinct (map Test.Name tests) \<and>
      parse_lines um r b c (packages, tests) = Inr (packages', tests')"
  then show "distinct (map Test.Name tests')"
    using parse_lines_distinct by blast
next
  assume "Parse um r pkgName = Inr rep"
  then show "distinct (map Test.Name (concat (map Tests (Packages rep))))"
    by (rule Parse_distinct_tests)
next
  assume a: "LineOutput.Test (snd (um l LineOutput_zero)) = name \<and> name \<noteq> '''' \<and>
      name \<in> Test.Name ` set tests \<and> Action (snd (um l LineOutput_zero)) = ''run''"
  then have "test_event (snd (um l LineOutput_zero)) tests = tests"
    by (intro test_event_present_run) simp_all
  with a show "parse_lines um [Inr l] b c (packages, tests) = Inr (packages, tests)"
    by simp
next
  assume a: "LineOutput.Test (snd (um l LineOutput_zero)) = name \<and> name \<noteq> '''' \<and>
      findTest tests name = Some i \<and> Action (snd (um l LineOutput_zero)) = ''output''"
  then have "test_event (snd (um l LineOutput_zero)) tests =
      tests[i := (tests ! i)
               \<lparr>Test.Output := Test.Output (tests ! i) @
                  [LineOutput.Output (snd (um l LineOutput_zero))]\<rparr>]"
    by (intro test_event_output) simp_all
  with a show "parse_lines um [Inr l] b c (packages, tests) =
        Inr (packages,
             tests[i := (tests ! i)
               \<lparr>Test.Output := Test.Output (tests ! i) @
                  [LineOutput.Output (snd (um l LineOutput_zero))]\<rparr>])"
    by simp
next
  assume "LineOutput.Test (snd (um l1 LineOutput_zero)) = name \<and>
      LineOutput.Test (snd (um l2 LineOutput_zero)) = name \<and>
      LineOutput.Test (snd (um l3 LineOutput_zero)) = name \<and> name \<noteq> '''' \<and>
      Action (snd (um l1 LineOutput_zero)) = ''run'' \<and>
      Action (snd (um l2 LineOutput_zero)) = ''run'' \<and>
      Action (snd (um l3 LineOutput_zero)) = ''output''"
  then show "parse_lines um [Inr l1, Inr l2, Inr l3] [] '''' ([], []) =
        Inr ([],
             [\<lparr>Test.Name = name, Package = LineOutput.Package (snd (um l1 LineOutput_zero)),
               Duration = 0, Result = FAIL,
               Output = [LineOutput.Output (snd (um l3 LineOutput_zero))],
               SubtestIndent = '''', Time = 0\<rparr>])"
    by (simp add: test_event_def find_simps)
qed

theorem C7_most_recent_match_witness:
  "findTest [entry_t_p, entry_t_q] ''t'' = Some 1 \<and>
   [entry_t_p, entry_t_q] ! 1 = entry_t_q \<and>
   findTest [entry_t_p, entry_t_q] ''u'' = None \<and>
   distinct (map Test.Name [entry_t_p]) \<and>
   parse_lines Unmarshal_sample [Inr line_run] [] '''' ([], [entry_t_p]) = Inr ([], [entry_t_p]) \<and>
   parse_lines Unmarshal_sample [Inr line_output] [] '''' ([], [entry_t_p]) =
     Inr ([], [entry_t_p\<lparr>Test.Output := [''ok'' @ [CHR 0x0A]]\<rparr>]) \<and>
   parse_lines Unmarshal_sample [Inr line_run, Inr line_run, Inr line_output] [] '''' ([], []) =
     Inr ([], [entry_t_p\<lparr>Test.Output := [''ok'' @ [CHR 0x0A]]\<rparr>])"
  using
    C7_most_recent_match[where tests = "[entry_t_p, entry_t_q]" and name = "''t''" and i = 1
      and ?t1.0 = entry_t_p and ?t2.0 = entry_t_q and um = Unmarshal_sample and r = "[]"
      and b = "[]" and c = "''''" and packages = "[]" and packages' = "[]"
      and tests' = "[entry_t_p, entry_t_q]" and pkgName = "''''" and rep = "\<lparr>Packages = []\<rparr>"
      and l = line_garbage and ?l1.0 = line_run and ?l2.0 = line_run and ?l3.0 = line_output]
    C7_most_recent_match[where tests = "[entry_t_p, entry_t_q]" and name = "''u''" and i = 0
      and ?t1.0 = entry_t_p and ?t2.0 = entry_t_q and um = Unmarshal_sample and r = "[]"
      and b = "[]" and c = "''''" and packages = "[]" and packages' = "[]"
      and tests' = "[]" and pkgName = "''''" and rep = "\<lparr>Packages = []\<rparr>"
      and l = line_garbage and ?l1.0 = line_garbage and ?l2.0 = line_garbage
      and ?l3.0 = line_garbage]
    C7_most_recent_match[where tests = "[entry_t_p]" and name = "''t''" and i = 0
      and ?t1.0 = entry_t_p and ?t2.0 = entry_t_q and um = Unmarshal_sample
      and r = "[Inr line_run]"
      and b = "[]" and c = "''''" and packages = "[]" and packages' = "[]"
      and tests' = "[entry_t_p]" and pkgName = "''''" and rep = "\<lparr>Packages = []\<rparr>"
      and l = line_run and ?l1.0 = line_run and ?l2.0 = line_run and ?l3.0 = line_output]
    C7_most_recent_match[where tests = "[entry_t_p]" and name = "''t''" and i = 0
      and ?t1.0 = entry_t_p and ?t2.0 = entry_t_q and um = Unmarshal_sample
      and r = "[Inr line_output]"
      and b = "[]" and c = "''''" and packages = "[]" and packages' = "[]"
      and tests' = "[entry_t_p\<lparr>Test.Output := [''ok'' @ [CHR 0x0A]]\<rparr>]" and pkgName = "''''"
      and rep = "\<lparr>Packages = []\<rparr>"
      and l = line_output and ?l1.0 = line_run and ?l2.0 = line_run and ?l3.0 = line_output]
  by (simp add: Unmarshal_sample_lines LineOutput_zero_def entry_t_p_def entry_t_q_def
      find_simps findTest_def numeral_2_eq_2)

section \<open>Lines that fail to decode\<close>

text \<open>
  Parse drops the error of \<^verbatim>\<open>json.Unmarshal\<close> and goes on with the value that the
  decoder left in the event, which was zero-valued before the call.
\<close>

lemma events_decoder_value:
  "events (\<lambda>l v. (None, snd (um l LineOutput_zero))) r = events um r"
  by (simp add: events_def)

lemma Parse_entities:
  assumes "Parse um r pkgName = Inr rep" and "e \<in> set (events um r)"
  shows "entity_in_Report e rep"
proof (cases "LineOutput.Test e = ''''")
  case True
  let ?tes = "filter (\<lambda>e. LineOutput.Test e \<noteq> '''') (events um r)"
  let ?pes = "filter (\<lambda>e. LineOutput.Test e = '''') (events um r)"
  from True assms(2) have "LineOutput.Package e \<in> LineOutput.Package ` set ?pes" by simp
  then have "LineOutput.Package e \<in> Package.Name ` set (Packages rep)"
    unfolding Parse_Inr(2)[OF assms(1)]
    using attach_tests_final[of "run_tests ?tes" "[]" "''''" ?pes] by blast
  with True show ?thesis by (simp add: entity_in_Report_def)
next
  case False
  let ?ts = "filter (\<lambda>t. Test.Name t = LineOutput.Test e) (concat (map Tests (Packages rep)))"
  from Parse_test_once[OF assms False] have "?ts \<noteq> []" by auto
  then have "hd ?ts \<in> set ?ts" by (rule hd_in_set)
  then obtain t where "t \<in> set ?ts" ..
  then have "t \<in> set (concat (map Tests (Packages rep)))" "Test.Name t = LineOutput.Test e"
    by (simp_all only: set_filter mem_Collect_eq)
  then have "LineOutput.Test e \<in> Test.Name ` set (concat (map Tests (Packages rep)))"
    by (metis image_eqI)
  with False show ?thesis by (simp add: entity_in_Report_def)
qed

text \<open>
  Claim C8 says that a zero-valued event is substituted for a line that fails to decode.
  For the line of a package whose \<^verbatim>\<open>Elapsed\<close> is a string the decoder returns an
  error and leaves the action \<open>pass\<close> and the package name \<open>p\<close> in the event; Parse
  uses this event, which is not the zero-valued one, and reports the package \<open>p\<close>.
\<close>

theorem C8_decode_failure_counterexample:
  "Unmarshal_sample line_elapsed_string LineOutput_zero =
     (Some (Failure ''json: cannot unmarshal string into Go struct field LineOutput.Elapsed of type float32''),
      LineOutput_zero\<lparr>Action := ''pass'', LineOutput.Package := ''p''\<rparr>) \<and>
   LineOutput_zero\<lparr>Action := ''pass'', LineOutput.Package := ''p''\<rparr> \<noteq> LineOutput_zero \<and>
   Parse Unmarshal_sample [Inr line_elapsed_string] '''' = Inr report_type_mismatch"
  by (simp add: Parse_eval report_type_mismatch_def)

text \<open>
  Claim C8, amended. A line that fails to decode never halts or aborts the processing and
  no error is recorded or surfaced: for every decoder and all lines Parse returns a
  report and no error, the same report as with a decoder that leaves the same values and
  reports no error. The event of a line is what the decoder left in a zero-valued event
  (the zero-valued event itself when it stored nothing, as for a line that is not JSON).
  Every line read has the entity of its event in the report, whatever lines come before
  or after it; the witness is a line that is not JSON between two valid pass lines, of a
  test and of a package, both of which are in the report.
\<close>

theorem C8_decode_failure_not_fatal:
  "\<exists>rep. Parse um (map Inr ls) pkgName = Inr rep \<and>
         Parse (\<lambda>l v. (None, snd (um l LineOutput_zero))) (map Inr ls) pkgName = Inr rep \<and>
         (\<forall>l \<in> set ls. entity_in_Report (snd (um l LineOutput_zero)) rep)"
proof -
  obtain rep where rep: "Parse um (map Inr ls) pkgName = Inr rep"
    by (simp add: Parse_eq)
  have "Parse (\<lambda>l v. (None, snd (um l LineOutput_zero))) (map Inr ls) pkgName = Inr rep"
    using rep unfolding Parse_eq events_decoder_value .
  moreover have "entity_in_Report (snd (um l LineOutput_zero)) rep" if "l \<in> set ls" for l
  proof -
    from that have "snd (um l LineOutput_zero) \<in> set (events um (map Inr ls))"
      by (simp add: events_def)
    with rep show ?thesis by (rule Parse_entities)
  qed
  ultimately show ?thesis using rep by blast
qed

theorem C8_decode_failure_not_fatal_witness:
  "fst (Unmarshal_sample line_garbage LineOutput_zero) = Some (Failure ''invalid character'') \<and>
   snd (Unmarshal_sample line_garbage LineOutput_zero) = LineOutput_zero \<and>
   Parse Unmarshal_sample [Inr line_pass, Inr line_garbage, Inr line_pass_package] '''' =
     Inr report_garbage_between \<and>
   entity_in_Report (snd (Unmarshal_sample line_pass LineOutput_zero)) report_garbage_between \<and>
   entity_in_Report (snd (Unmarshal_sample line_pass_package LineOutput_zero))
     report_garbage_between"
proof -
  have p: "Parse Unmarshal_sample [Inr line_pass, Inr line_garbage, Inr line_pass_package] '''' =
     Inr report_garbage_between"
    by (simp add: Parse_eval report_garbage_between_def Millisecond_def findPackage_def
        numeral_2_eq_2)
  from C8_decode_failure_not_fatal[of Unmarshal_sample
      "[line_pass, line_garbage, line_pass_package]" "''''"]
  show ?thesis
    unfolding list.map p by (simp add: Unmarshal_sample_lines)
qed

lemma package_event_zero_new:
  assumes "'''' \<notin> Package.Name ` set packages"
  shows "package_event LineOutput_zero b c packages =
         packages @ [\<lparr>Package.Name = '''', Duration = 0, Tests = [], Benchmarks = b,
                      CoveragePct = c, Time = 0\<rparr>]"
proof -
  from assms have "findPackage packages '''' = None" by (simp add: findPackage_None)
  then show ?thesis
    by (simp add: package_event_eq LineOutput_zero_def update_Package_def new_Package_def)
qed

lemma package_event_zero_old:
  assumes "'''' \<in> Package.Name ` set packages"
  shows "package_event LineOutput_zero b c packages = packages"
proof -
  from assms have "findPackage packages '''' \<noteq> None" by (simp add: findPackage_None)
  then obtain i where "findPackage packages '''' = Some i" by blast
  then show ?thesis
    by (simp add: package_event_eq LineOutput_zero_def update_Package_def)
qed

text \<open>
  Claim C10 says that a line that fails to decode gives a zero-valued event and so a
  package with the empty name. For the line of test \<open>t\<close> whose \<^verbatim>\<open>Elapsed\<close> is a
  string the decoder returns an error and leaves the test name in the event: the line is
  processed as a test-scoped event, and the report of the stream of this one line holds
  the package \<open>p\<close> only, no package with the empty name.
\<close>

theorem C10_type_mismatch_counterexample:
  "fst (Unmarshal_sample line_elapsed_string_test LineOutput_zero) =
     Some (Failure ''json: cannot unmarshal string into Go struct field LineOutput.Elapsed of type float32'') \<and>
   LineOutput.Test (snd (Unmarshal_sample line_elapsed_string_test LineOutput_zero)) = ''t'' \<and>
   Parse Unmarshal_sample [Inr line_elapsed_string_test] '''' = Inr report_test_only \<and>
   map Package.Name (Packages report_test_only) = [''p'']"
  by (simp add: Parse_eval report_test_only_def)

text \<open>
  Claim C10, amended. A line for which the decoder leaves the event zero-valued (as
  \<^verbatim>\<open>json.Unmarshal\<close> does for a line that is not valid JSON) is processed as a
  package-scoped event with the empty package name. When no package with the empty name
  exists, the line appends one, with zero Duration and no tests; when one exists, as
  after the first such line, the line finds it and changes nothing. The report of a
  stream with such a line holds exactly one package whose name is empty.
\<close>

theorem C10_undecoded_line:
  assumes "snd (um l LineOutput_zero) = LineOutput_zero"
  shows "('''' \<notin> Package.Name ` set packages \<longrightarrow>
            parse_lines um [Inr l] b c (packages, tests) =
              Inr (packages @ [\<lparr>Package.Name = '''', Duration = 0, Tests = [], Benchmarks = b,
                                 CoveragePct = c, Time = 0\<rparr>], tests)) \<and>
         ('''' \<in> Package.Name ` set packages \<longrightarrow>
            parse_lines um [Inr l] b c (packages, tests) = Inr (packages, tests)) \<and>
         (l \<in> set ls \<longrightarrow>
            (\<exists>rep. Parse um (map Inr ls) pkgName = Inr rep \<and>
                   length (filter (\<lambda>p. Package.Name p = '''') (Packages rep)) = 1))"
proof (intro conjI impI)
  have z: "LineOutput.Test LineOutput_zero = ''''" by (simp add: LineOutput_zero_def)
  {
    assume "'''' \<notin> Package.Name ` set packages"
    then show "parse_lines um [Inr l] b c (packages, tests) =
              Inr (packages @ [\<lparr>Package.Name = '''', Duration = 0, Tests = [], Benchmarks = b,
                                 CoveragePct = c, Time = 0\<rparr>], tests)"
      by (simp add: assms z package_event_zero_new)
  next
    assume "'''' \<in> Package.Name ` set packages"
    then show "parse_lines um [Inr l] b c (packages, tests) = Inr (packages, tests)"
      by (simp add: assms z package_event_zero_old)
  next
    assume l: "l \<in> set ls"
    obtain rep where rep: "Parse um (map Inr ls) pkgName = Inr rep"
      by (simp add: Parse_eq)
    let ?tes = "filter (\<lambda>e. LineOutput.Test e \<noteq> '''') (events um (map Inr ls))"
    let ?pes = "filter (\<lambda>e. LineOutput.Test e = '''') (events um (map Inr ls))"
    from l have "snd (um l LineOutput_zero) \<in> set (events um (map Inr ls))"
      by (simp add: events_def)
    then have "LineOutput_zero \<in> set ?pes" by (simp add: assms z)
    then have "LineOutput.Package LineOutput_zero \<in> LineOutput.Package ` set ?pes"
      by (rule imageI)
    then have "'''' \<in> LineOutput.Package ` set ?pes" by (simp add: LineOutput_zero_def)
    then have "'''' \<in> Package.Name ` set (Packages rep)"
      unfolding Parse_Inr(2)[OF rep]
      using attach_tests_final[of "run_tests ?tes" "[]" "''''" ?pes] by blast
    moreover have "distinct (map Package.Name (Packages rep))"
      unfolding Parse_Inr(2)[OF rep]
      using attach_tests_final[of "run_tests ?tes" "[]" "''''" ?pes] by blast
    ultimately have "length (filter (\<lambda>p. Package.Name p = '''') (Packages rep)) = 1"
      by (simp add: distinct_count_one)
    with rep show "\<exists>rep. Parse um (map Inr ls) pkgName = Inr rep \<and>
                   length (filter (\<lambda>p. Package.Name p = '''') (Packages rep)) = 1"
      by blast
  }
qed

theorem C10_undecoded_line_witness:
  "snd (Unmarshal_sample line_garbage LineOutput_zero) = LineOutput_zero \<and>
   parse_lines Unmarshal_sample [Inr line_garbage] [] '''' ([], []) =
     Inr ([\<lparr>Package.Name = '''', Duration = 0, Tests = [], Benchmarks = [], CoveragePct = '''',
            Time = 0\<rparr>], []) \<and>
   parse_lines Unmarshal_sample [Inr line_garbage] [] ''''
     ([\<lparr>Package.Name = '''', Duration = 0, Tests = [], Benchmarks = [], CoveragePct = '''',
        Time = 0\<rparr>], []) =
     Inr ([\<lparr>Package.Name = '''', Duration = 0, Tests = [], Benchmarks = [], CoveragePct = '''',
            Time = 0\<rparr>], []) \<and>
   (\<exists>rep. Parse Unmarshal_sample [Inr line_pass, Inr line_garbage, Inr line_garbage] '''' = Inr rep \<and>
          length (filter (\<lambda>p. Package.Name p = '''') (Packages rep)) = 1)"
proof -
  have g: "snd (Unmarshal_sample line_garbage LineOutput_zero) = LineOutput_zero"
    by (simp add: Unmarshal_sample_lines)
  from C10_undecoded_line[where um = Unmarshal_sample and l = line_garbage and packages = "[]"
        and tests = "[]" and b = "[]" and c = "''''"
        and ls = "[line_pass, line_garbage, line_garbage]" and pkgName = "''''", OF g]
    C10_undecoded_line[where um = Unmarshal_sample and l = line_garbage
        and packages = "[\<lparr>Package.Name = '''', Duration = 0, Tests = [], Benchmarks = [],
            CoveragePct = '''', Time = 0\<rparr>]"
        and tests = "[]" and b = "[]" and c = "''''" and ls = "[]" and pkgName = "''''", OF g]
  show ?thesis
    using g by simp
qed

end
